theory Spec2Isabelle
  imports Complex_Main
begin

section \<open>Numbers, values and host calls\<close>

text \<open>
  A JavaScript number is modelled as a real: arithmetic is exact, and NaN and the
  infinities are outside the model. \<open>Math.round\<close> (p5's \<open>round\<close> with one argument)
  rounds a tie upwards, as \<^const>\<open>round\<close> does; \<open>Math.floor\<close> and \<open>Math.ceil\<close> are
  \<^const>\<open>floor\<close> and \<^const>\<open>ceiling\<close>.
\<close>

definition js_round :: "real \<Rightarrow> real" where
  "js_round x = real_of_int (round x)"

definition js_floor :: "real \<Rightarrow> real" where
  "js_floor x = real_of_int \<lfloor>x\<rfloor>"

definition js_ceil :: "real \<Rightarrow> real" where
  "js_ceil x = real_of_int \<lceil>x\<rceil>"

text \<open>
  The values an argument or a property of the config object can hold, as far as
  \<open>typeof\<close> and truthiness tell them apart. \<open>JObject\<close> is an object with none of the
  properties or methods the library reads.
\<close>

datatype jsval = JUndefined | JNull | JBool bool | JNum real | JStr string | JFunction | JObject

datatype jstype = TUndefined | TObject | TBoolean | TNumber | TString | TFunction

fun typeof :: "jsval \<Rightarrow> jstype" where
  "typeof JUndefined = TUndefined"
| "typeof JNull = TObject"
| "typeof (JBool b) = TBoolean"
| "typeof (JNum x) = TNumber"
| "typeof (JStr s) = TString"
| "typeof JFunction = TFunction"
| "typeof JObject = TObject"

fun truthy :: "jsval \<Rightarrow> bool" where
  "truthy JUndefined = False"
| "truthy JNull = False"
| "truthy (JBool b) = b"
| "truthy (JNum x) = (x \<noteq> 0)"
| "truthy (JStr s) = (s \<noteq> [])"
| "truthy JFunction = True"
| "truthy JObject = True"

text \<open>The blend mode constants \<open>MULTIPLY\<close> and \<open>BLEND\<close> of p5, with the values p5 gives them.\<close>

definition MULTIPLY :: jsval where
  "MULTIPLY = JStr ''multiply''"

definition BLEND :: jsval where
  "BLEND = JStr ''source-over''"

text \<open>
  The drawing calls \<open>textureOverlay\<close> makes on its target (the main canvas, or the
  offscreen buffer \<open>pg\<close>), in the order it makes them. The texture image is the same
  in every \<open>image\<close> call and is left out.
\<close>

datatype call =
    BlendMode jsval
  | Push
  | Pop
  | Scale real real
  | Image real real real real
  | Reset

text \<open>
  A surface: the main canvas (p5's globals \<open>width\<close>, \<open>height\<close>, \<open>pixelDensity()\<close>,
  \<open>pixels\<close>) or a \<open>p5.Graphics\<close> buffer. \<open>loadPixels\<close> and \<open>updatePixels\<close> move the
  samples between the surface and its \<open>pixels\<close> array; the model keeps the array only.
\<close>

record surface =
  width :: real
  height :: real
  pixelDensity :: real
  pixels :: "real list"

section \<open>The P5Grain instance\<close>

text \<open>
  The private fields of the class. The random function (\<open>Math.random\<close>, or the one
  given to \<open>setup\<close>) is the sequence of values it returns, call after call, and the
  count of the values returned so far.
\<close>

record p5grain =
  ignoreWarnings :: bool
  ignoreErrors :: bool
  random_fn :: "nat \<Rightarrow> real"
  drawn :: nat
  ta_frameCount :: real
  to_frameCount :: real
  to_tX_anchor :: real
  to_tX :: real
  to_tY :: real

definition new_P5Grain :: "(nat \<Rightarrow> real) \<Rightarrow> p5grain" where
  "new_P5Grain rnd =
     \<lparr>ignoreWarnings = False, ignoreErrors = False, random_fn = rnd, drawn = 0,
      ta_frameCount = 0, to_frameCount = 0, to_tX_anchor = 0, to_tX = 0, to_tY = 0\<rparr>"

text \<open>One call \<open>this.#random()\<close>.\<close>

definition next_random :: "p5grain \<Rightarrow> real \<times> p5grain" where
  "next_random g = (random_fn g (drawn g), g\<lparr>drawn := drawn g + 1\<rparr>)"

text \<open>
  \<open>#randomIntInclusive(min, max)\<close>, given the value \<open>r\<close> that its call of
  \<open>this.#random()\<close> returns.
\<close>

definition randomIntInclusive :: "real \<Rightarrow> real \<Rightarrow> real \<Rightarrow> real" where
  "randomIntInclusive r mn mx =
     (let mn' = js_ceil mn; mx' = js_floor mx
      in js_floor (r * (mx' - mn' + 1) + mn'))"

datatype error = Error string | TypeError

section \<open>The tiling sweep of textureOverlay\<close>

text \<open>The local variables of the two nested loops, and the calls made so far.\<close>

record sweep_state =
  tX :: real
  tY :: real
  tRowFirst :: bool
  tColFirst :: bool
  calls :: "call list"

text \<open>
  The calls of one pass through the inner loop's body, before \<open>tX += tW\<close>. The
  branches on \<open>isGraphicsBuffer\<close> make the same calls on the main canvas or on \<open>pg\<close>.
\<close>

definition draw_tile :: "bool \<Rightarrow> bool \<Rightarrow> bool \<Rightarrow> real \<Rightarrow> real \<Rightarrow> real \<Rightarrow> real \<Rightarrow> call list" where
  "draw_tile reflect rowFirst colFirst x y w h =
     (if reflect then
        [Push] @
        (if rowFirst then
           (if colFirst then [Image x y w h]
            else [Scale (- 1) 1, Image (- x) y (- w) h])
         else
           (if colFirst then [Scale 1 (- 1), Image x (- y) w (- h)]
            else [Scale (- 1) (- 1), Image (- x) (- y) (- w) (- h)])) @
        [Pop]
      else [Image x y w h])"

text \<open>
  \<open>while (tX < _width) { ... }\<close>: the loop may run forever (a tile width of 0 never
  advances \<open>tX\<close>), so it is a partial function and \<open>None\<close> is a run that never ends.
  The \<open>break\<close> is the branch that returns.
\<close>

partial_function (option) inner_loop ::
  "real \<Rightarrow> real \<Rightarrow> real \<Rightarrow> real \<Rightarrow> bool \<Rightarrow> sweep_state \<Rightarrow> sweep_state option" where
  "inner_loop W tW tH anchor reflect s =
     (if tX s < W then
        (let s1 = s\<lparr>calls := calls s @
                          draw_tile reflect (tRowFirst s) (tColFirst s) (tX s) (tY s) tW tH,
                     tX := tX s + tW\<rparr>
         in if tX s1 \<ge> W
            then Some (s1\<lparr>tColFirst := True, tX := anchor, tY := tY s1 + tH\<rparr>)
            else inner_loop W tW tH anchor reflect (s1\<lparr>tColFirst := \<not> tColFirst s1\<rparr>))
      else Some s)"

text \<open>\<open>while (tY < _height) { <inner loop>; tRowFirst = !tRowFirst; }\<close>\<close>

partial_function (option) outer_loop ::
  "real \<Rightarrow> real \<Rightarrow> real \<Rightarrow> real \<Rightarrow> real \<Rightarrow> bool \<Rightarrow> sweep_state \<Rightarrow> sweep_state option" where
  "outer_loop W H tW tH anchor reflect s =
     (if tY s < H then
        (case inner_loop W tW tH anchor reflect s of
           None \<Rightarrow> None
         | Some s' \<Rightarrow> outer_loop W H tW tH anchor reflect (s'\<lparr>tRowFirst := \<not> tRowFirst s'\<rparr>))
      else Some s)"

text \<open>
  The sweep from the anchor \<open>(tX_anchor, tY)\<close> of the overlay state: the calls it
  makes, or \<open>None\<close> when it never ends.
\<close>

definition sweep :: "real \<Rightarrow> real \<Rightarrow> real \<Rightarrow> real \<Rightarrow> bool \<Rightarrow> real \<Rightarrow> real \<Rightarrow> call list option" where
  "sweep W H tW tH reflect ax ay =
     map_option calls
       (outer_loop W H tW tH ax reflect
          \<lparr>tX = ax, tY = ay, tRowFirst = True, tColFirst = True, calls = []\<rparr>)"

section \<open>What the sweep draws\<close>

text \<open>
  The number of steps of length \<open>step\<close> from \<open>lo\<close> that start below \<open>hi\<close>: the tiles
  in a row (from the anchor to the right edge) or in a column.
\<close>

definition tiles_along :: "real \<Rightarrow> real \<Rightarrow> real \<Rightarrow> nat" where
  "tiles_along lo hi step = nat \<lceil>(hi - lo) / step\<rceil>"

text \<open>
  The calls of a row of \<open>n\<close> tiles that starts at \<open>(x, y)\<close> with the column flag
  \<open>colFirst\<close>, and of a grid of \<open>m\<close> such rows that starts with the row flag
  \<open>rowFirst\<close>: the flags alternate from tile to tile and from row to row.
\<close>

definition row_calls :: "bool \<Rightarrow> bool \<Rightarrow> bool \<Rightarrow> real \<Rightarrow> real \<Rightarrow> real \<Rightarrow> real \<Rightarrow> nat \<Rightarrow> call list" where
  "row_calls reflect rowFirst colFirst x y tW tH n =
     concat (map (\<lambda>k. draw_tile reflect rowFirst (colFirst = even k) (x + real k * tW) y tW tH) [0..<n])"

definition grid_calls :: "bool \<Rightarrow> bool \<Rightarrow> real \<Rightarrow> real \<Rightarrow> real \<Rightarrow> real \<Rightarrow> nat \<Rightarrow> nat \<Rightarrow> call list" where
  "grid_calls reflect rowFirst x y tW tH n m =
     concat (map (\<lambda>j. row_calls reflect (rowFirst = even j) True x (y + real j * tH) tW tH n) [0..<m])"

text \<open>
  Modelled from the spec: the drawing primitives of the host (section 6: \<open>image\<close>,
  \<open>scale\<close>, \<open>push\<close> and \<open>pop\<close> as an isolated transform scope, \<open>reset\<close>), which are
  p5's and not part of the library. \<open>render s stk cs\<close> is what the calls \<open>cs\<close> put on
  the surface when the scale in effect is \<open>s\<close> and \<open>stk\<close> holds the scales saved by
  \<open>push\<close>: for every \<open>image(x, y, w, h)\<close> the rectangle between the corners \<open>(x, y)\<close> and
  \<open>(x + w, y + h)\<close>, scaled about the origin, and whether the scale mirrors the image
  horizontally or vertically (a negative width or height does not). No call of the
  sweep moves the origin.
\<close>

record placed =
  p_left :: real
  p_top :: real
  p_right :: real
  p_bottom :: real
  p_mirrorX :: bool
  p_mirrorY :: bool

fun render :: "real \<times> real \<Rightarrow> (real \<times> real) list \<Rightarrow> call list \<Rightarrow> placed list" where
  "render s stk [] = []"
| "render s stk (Push # cs) = render s (s # stk) cs"
| "render s stk (Pop # cs) =
     (case stk of [] \<Rightarrow> render s [] cs | t # stk' \<Rightarrow> render t stk' cs)"
| "render (sx, sy) stk (Scale a b # cs) = render (sx * a, sy * b) stk cs"
| "render (sx, sy) stk (Image x y w h # cs) =
     \<lparr>p_left = min (sx * x) (sx * (x + w)), p_top = min (sy * y) (sy * (y + h)),
      p_right = max (sx * x) (sx * (x + w)), p_bottom = max (sy * y) (sy * (y + h)),
      p_mirrorX = (sx < 0), p_mirrorY = (sy < 0)\<rparr> # render (sx, sy) stk cs"
| "render s stk (BlendMode m # cs) = render s stk cs"
| "render s stk (Reset # cs) = render (1, 1) stk cs"

text \<open>A point of the surface lies in a placed image: left and top edges included.\<close>

definition covers :: "placed \<Rightarrow> real \<times> real \<Rightarrow> bool" where
  "covers p c = (p_left p \<le> fst c \<and> fst c < p_right p \<and> p_top p \<le> snd c \<and> snd c < p_bottom p)"

text \<open>
  The tile of size \<open>(w, h)\<close> at \<open>(x, y)\<close>, mirrored horizontally when drawn as a second
  column and vertically when drawn as a second row of a reflecting sweep.
\<close>

definition placed_tile :: "bool \<Rightarrow> bool \<Rightarrow> bool \<Rightarrow> real \<Rightarrow> real \<Rightarrow> real \<Rightarrow> real \<Rightarrow> placed" where
  "placed_tile reflect rowFirst colFirst x y w h =
     \<lparr>p_left = x, p_top = y, p_right = x + w, p_bottom = y + h,
      p_mirrorX = (reflect \<and> \<not> colFirst), p_mirrorY = (reflect \<and> \<not> rowFirst)\<rparr>"

section \<open>textureOverlay\<close>

text \<open>
  The arguments of \<open>textureOverlay(textureImage, config, pg)\<close>. The texture is a
  \<open>p5.Image\<close> with its width and height, or is missing (\<open>undefined\<close> or \<open>null\<close>).
  The config is an object with the five properties the method reads, or any other value.
  \<open>config.animate\<close> is \<open>undefined\<close>, a boolean, or an object whose \<open>atFrame\<close> and
  \<open>amount\<close> are numbers when present (\<open>None\<close>: the property is absent); the method
  never checks their types, and other values there are outside the model. \<open>pg\<close> is a
  \<open>p5.Graphics\<close> buffer or any other value.
\<close>

datatype texture_arg = P5Image real real | TextureMissing

datatype animate_arg = AnimateUndefined | AnimateBool bool | AnimateObject "real option" "real option"

record overlay_config =
  cfg_width :: jsval
  cfg_height :: jsval
  cfg_mode :: jsval
  cfg_reflect :: jsval
  cfg_animate :: animate_arg

datatype config_arg = ConfigValue jsval | ConfigObject overlay_config

datatype pg_arg = PgValue jsval | PgGraphics surface

fun instanceof_Image :: "texture_arg \<Rightarrow> bool" where
  "instanceof_Image (P5Image w h) = True"
| "instanceof_Image TextureMissing = False"

fun instanceof_Graphics :: "pg_arg \<Rightarrow> bool" where
  "instanceof_Graphics (PgGraphics b) = True"
| "instanceof_Graphics (PgValue v) = False"

fun typeof_config :: "config_arg \<Rightarrow> jstype" where
  "typeof_config (ConfigValue v) = typeof v"
| "typeof_config (ConfigObject c) = TObject"

fun typeof_pg :: "pg_arg \<Rightarrow> jstype" where
  "typeof_pg (PgValue v) = typeof v"
| "typeof_pg (PgGraphics b) = TObject"

fun truthy_pg :: "pg_arg \<Rightarrow> bool" where
  "truthy_pg (PgValue v) = truthy v"
| "truthy_pg (PgGraphics b) = True"

text \<open>
  Reading a property of \<open>config\<close>: a TypeError (\<open>None\<close>) on \<open>undefined\<close> and \<open>null\<close>,
  \<open>undefined\<close> for every property of another value that is not a config object.
\<close>

definition no_properties :: overlay_config where
  "no_properties =
     \<lparr>cfg_width = JUndefined, cfg_height = JUndefined, cfg_mode = JUndefined,
      cfg_reflect = JUndefined, cfg_animate = AnimateUndefined\<rparr>"

fun properties :: "config_arg \<Rightarrow> overlay_config option" where
  "properties (ConfigValue JUndefined) = None"
| "properties (ConfigValue JNull) = None"
| "properties (ConfigValue v) = Some no_properties"
| "properties (ConfigObject c) = Some c"

text \<open>
  The \<open>textureOverlay\<close> case of \<open>#validateArguments\<close>: the error it throws, if any.
  Every check is a \<open>typeof\<close> or an \<open>instanceof\<close>; \<open>typeof null\<close> is \<open>'object'\<close>, so a
  \<open>null\<close> config reaches the property checks, where reading \<open>args[1].width\<close> is a
  TypeError.
\<close>

definition validateArguments_textureOverlay ::
  "p5grain \<Rightarrow> texture_arg \<Rightarrow> config_arg \<Rightarrow> pg_arg \<Rightarrow> error option" where
  "validateArguments_textureOverlay g textureImage config pg =
     (if ignoreErrors g then None
      else if \<not> instanceof_Image textureImage then
        Some (Error ''[p5.grain] The texture argument passed to textureOverlay() must be an instance of p5.Image.'')
      else if typeof_config config \<noteq> TUndefined \<and> typeof_config config \<noteq> TObject then
        Some (Error ''[p5.grain] The optional config argument passed to textureOverlay() must be of type object.'')
      else
        (case (if typeof_config config = TObject then
                 (case properties config of
                    None \<Rightarrow> Some TypeError
                  | Some c \<Rightarrow>
                      if typeof (cfg_width c) \<noteq> TUndefined \<and> typeof (cfg_width c) \<noteq> TNumber then
                        Some (Error ''[p5.grain] The optional config.width property passed to textureOverlay() must be of type number.'')
                      else if typeof (cfg_height c) \<noteq> TUndefined \<and> typeof (cfg_height c) \<noteq> TNumber then
                        Some (Error ''[p5.grain] The optional config.height property passed to textureOverlay() must be of type number.'')
                      else if typeof (cfg_mode c) \<noteq> TUndefined \<and> typeof (cfg_mode c) \<noteq> TString then
                        Some (Error ''[p5.grain] The optional config.mode property passed to textureOverlay() must be of type string.'')
                      else if typeof (cfg_reflect c) \<noteq> TUndefined \<and> typeof (cfg_reflect c) \<noteq> TBoolean then
                        Some (Error ''[p5.grain] The optional config.reflect property passed to textureOverlay() must be of type boolean.'')
                      else None)
               else None) of
           Some e \<Rightarrow> Some e
         | None \<Rightarrow>
             if typeof_pg pg \<noteq> TUndefined \<and> \<not> instanceof_Graphics pg then
               Some (Error ''[p5.grain] The offscreen graphics buffer for textureOverlay() must be an instance of p5.Graphics.'')
             else None))"

text \<open>The resolved parameters of lines 296 to 312.\<close>

fun animate_truthy :: "animate_arg \<Rightarrow> bool" where
  "animate_truthy AnimateUndefined = False"
| "animate_truthy (AnimateBool b) = b"
| "animate_truthy (AnimateObject atFrame amount) = True"

text \<open>\<open>config.animate && config.animate.atFrame ? round(config.animate.atFrame) : 2\<close>\<close>

fun overlay_atFrame :: "animate_arg \<Rightarrow> real" where
  "overlay_atFrame (AnimateObject (Some atFrame) amount) =
     (if atFrame \<noteq> 0 then js_round atFrame else 2)"
| "overlay_atFrame a = 2"

text \<open>\<open>config.animate && config.animate.amount ? round(config.animate.amount) : min(_width, _height)\<close>\<close>

fun overlay_amount :: "animate_arg \<Rightarrow> real \<Rightarrow> real \<Rightarrow> real" where
  "overlay_amount (AnimateObject atFrame (Some amount)) w h =
     (if amount \<noteq> 0 then js_round amount else min w h)"
| "overlay_amount a w h = min w h"

text \<open>
  \<open>typeof config.width === 'number' ? config.width : textureImage.width\<close>, and the
  same for the height; reading a property of a missing texture is a TypeError (\<open>None\<close>).
\<close>

fun texture_width :: "texture_arg \<Rightarrow> real option" where
  "texture_width (P5Image w h) = Some w"
| "texture_width TextureMissing = None"

fun texture_height :: "texture_arg \<Rightarrow> real option" where
  "texture_height (P5Image w h) = Some h"
| "texture_height TextureMissing = None"

fun tile_size :: "jsval \<Rightarrow> real option \<Rightarrow> real option" where
  "tile_size (JNum x) d = Some x"
| "tile_size v d = d"

text \<open>
  The animation block (lines 314 to 325): the only place where the overlay state
  changes.
\<close>

definition overlay_animate :: "bool \<Rightarrow> real \<Rightarrow> real \<Rightarrow> p5grain \<Rightarrow> p5grain" where
  "overlay_animate animate atFrame amount g =
     (if animate then
        (let g1 = g\<lparr>to_frameCount := to_frameCount g + 1\<rparr>
         in if to_frameCount g1 \<ge> atFrame then
              (let (r1, g2) = next_random g1;
                   g3 = g2\<lparr>to_tX_anchor := - js_floor (r1 * amount)\<rparr>;
                   (r2, g4) = next_random g3;
                   g5 = g4\<lparr>to_tY := - js_floor (r2 * amount)\<rparr>
               in g5\<lparr>to_frameCount := 0\<rparr>)
            else g1)
      else g)"

text \<open>\<open>isGraphicsBuffer ? pg.width : width\<close>, and the same for the height.\<close>

fun target_width :: "surface \<Rightarrow> pg_arg \<Rightarrow> real" where
  "target_width canvas (PgGraphics b) = width b"
| "target_width canvas (PgValue v) = width canvas"

fun target_height :: "surface \<Rightarrow> pg_arg \<Rightarrow> real" where
  "target_height canvas (PgGraphics b) = height b"
| "target_height canvas (PgValue v) = height canvas"

text \<open>
  What a call does: it returns, with the new state of the instance and the calls made
  on the target; or it throws, the state being what it was at the throw; or it never
  returns.
\<close>

datatype outcome = Returns p5grain "call list" | Throws error p5grain | Diverges

text \<open>
  \<open>textureOverlay\<close>, with \<open>canvas\<close> the main canvas. A truthy \<open>pg\<close> that is not a
  \<open>p5.Graphics\<close> (possible under \<open>ignoreErrors\<close> only) has no \<open>blendMode\<close> method, and
  calling it is a TypeError.
\<close>

definition textureOverlay ::
  "surface \<Rightarrow> p5grain \<Rightarrow> texture_arg \<Rightarrow> config_arg \<Rightarrow> pg_arg \<Rightarrow> outcome" where
  "textureOverlay canvas g textureImage config pg =
     (case validateArguments_textureOverlay g textureImage config pg of
        Some e \<Rightarrow> Throws e g
      | None \<Rightarrow>
          (let isGraphicsBuffer = instanceof_Graphics pg;
               width' = target_width canvas pg;
               height' = target_height canvas pg
           in case properties config of
                None \<Rightarrow> Throws TypeError g
              | Some c \<Rightarrow>
                  (let mode' = (if truthy (cfg_mode c) then cfg_mode c else MULTIPLY);
                       reflect' = truthy (cfg_reflect c);
                       animate' = animate_truthy (cfg_animate c);
                       animateAtFrame = overlay_atFrame (cfg_animate c);
                       animateAmount = overlay_amount (cfg_animate c) width' height'
                   in case tile_size (cfg_width c) (texture_width textureImage) of
                        None \<Rightarrow> Throws TypeError g
                      | Some tW \<Rightarrow>
                          (case tile_size (cfg_height c) (texture_height textureImage) of
                             None \<Rightarrow> Throws TypeError g
                           | Some tH \<Rightarrow>
                               (let g' = overlay_animate animate' animateAtFrame animateAmount g
                                in if truthy_pg pg \<and> \<not> isGraphicsBuffer then Throws TypeError g'
                                   else
                                     (case sweep width' height' tW tH reflect'
                                             (to_tX_anchor g') (to_tY g') of
                                        None \<Rightarrow> Diverges
                                      | Some cs \<Rightarrow>
                                          Returns g'
                                            ([BlendMode mode'] @ cs @ [BlendMode BLEND] @
                                             (if isGraphicsBuffer then [Reset] else []))))))))"

text \<open>
  A sequence of \<open>textureOverlay\<close> calls on one instance: the state after the last
  call, or \<open>None\<close> when one of them never returns. A call that throws leaves the state
  it had at the throw.
\<close>

fun overlay_calls ::
  "surface \<Rightarrow> p5grain \<Rightarrow> (texture_arg \<times> config_arg \<times> pg_arg) list \<Rightarrow> p5grain option" where
  "overlay_calls canvas g [] = Some g"
| "overlay_calls canvas g ((textureImage, config, pg) # rest) =
     (case textureOverlay canvas g textureImage config pg of
        Returns g' cs \<Rightarrow> overlay_calls canvas g' rest
      | Throws e g' \<Rightarrow> overlay_calls canvas g' rest
      | Diverges \<Rightarrow> None)"

text \<open>
  A call with animation enabled (\<open>config.animate\<close> truthy) and a resolved animate
  amount above 0.
\<close>

fun animated_call :: "surface \<Rightarrow> texture_arg \<times> config_arg \<times> pg_arg \<Rightarrow> bool" where
  "animated_call canvas (textureImage, ConfigObject c, pg) =
     (animate_truthy (cfg_animate c) \<and>
      0 < overlay_amount (cfg_animate c) (target_width canvas pg) (target_height canvas pg))"
| "animated_call canvas (textureImage, ConfigValue v, pg) = False"

section \<open>textureAnimate\<close>

text \<open>
  The element is an \<open>HTMLElement\<close>, an \<open>SVGElement\<close> or a \<open>p5.Element\<close>, and the config
  is \<open>undefined\<close> (\<open>None\<close>) or an object whose \<open>atFrame\<close> and \<open>amount\<close> are numbers when
  present: the arguments \<open>#validateArguments\<close> accepts. The style values are kept as
  numbers of pixels, not as the strings \<open>'12px 7px'\<close>.
\<close>

datatype element_kind = HTMLElement | SVGElement | P5Element

record element =
  kind :: element_kind
  style_backgroundPosition :: "(real \<times> real) option"
  style_top :: "real option"
  style_left :: "real option"

record animate_config =
  ac_atFrame :: "real option"
  ac_amount :: "real option"

text \<open>\<open>config && config.atFrame ? round(config.atFrame) : 2\<close>\<close>

fun animate_atFrame :: "animate_config option \<Rightarrow> real" where
  "animate_atFrame None = 2"
| "animate_atFrame (Some c) =
     (case ac_atFrame c of None \<Rightarrow> 2 | Some a \<Rightarrow> if a \<noteq> 0 then js_round a else 2)"

text \<open>\<open>config && config.amount ? round(config.amount) : min(width, height)\<close>\<close>

fun animate_amount :: "surface \<Rightarrow> animate_config option \<Rightarrow> real" where
  "animate_amount canvas None = min (width canvas) (height canvas)"
| "animate_amount canvas (Some c) =
     (case ac_amount c of
        None \<Rightarrow> min (width canvas) (height canvas)
      | Some a \<Rightarrow> if a \<noteq> 0 then js_round a else min (width canvas) (height canvas))"

definition textureAnimate ::
  "surface \<Rightarrow> p5grain \<Rightarrow> element \<Rightarrow> animate_config option \<Rightarrow> p5grain \<times> element" where
  "textureAnimate canvas g textureElement config =
     (let atFrame' = animate_atFrame config;
          g1 = g\<lparr>ta_frameCount := ta_frameCount g + 1\<rparr>
      in if ta_frameCount g1 \<ge> atFrame' then
           (let amount' = animate_amount canvas config;
                (r1, g2) = next_random g1;
                bgPosX = js_floor (r1 * amount');
                (r2, g3) = next_random g2;
                bgPosY = js_floor (r2 * amount');
                el = (case kind textureElement of
                        HTMLElement \<Rightarrow>
                          textureElement\<lparr>style_backgroundPosition := Some (bgPosX, bgPosY)\<rparr>
                      | SVGElement \<Rightarrow>
                          textureElement\<lparr>style_top := Some (- bgPosY), style_left := Some (- bgPosX)\<rparr>
                      | P5Element \<Rightarrow>
                          textureElement\<lparr>style_backgroundPosition := Some (bgPosX, bgPosY)\<rparr>)
            in (g3\<lparr>ta_frameCount := 0\<rparr>, el))
         else (g1, textureElement))"

section \<open>granulateSimple, granulateChannels and tinkerPixels\<close>

text \<open>
  The arguments are of the types \<open>#validateArguments\<close> accepts: \<open>amount\<close> a number,
  \<open>alpha\<close> \<open>undefined\<close> (\<open>None\<close>) or a boolean, \<open>pg\<close> \<open>undefined\<close> (\<open>None\<close>) or a
  \<open>p5.Graphics\<close> buffer, the callback a function.

  The statement \<open>_pixels[k] = _pixels[k] + d\<close> on the pixel array, a typed array: an
  index outside the array reads \<open>undefined\<close> and the write is ignored. \<open>store\<close> is
  the conversion the array applies to a number written into it (a \<open>Uint8ClampedArray\<close>
  clamps to 0..255); it belongs to the host and is a parameter.
\<close>

definition add_at :: "(real \<Rightarrow> real) \<Rightarrow> real list \<Rightarrow> nat \<Rightarrow> real \<Rightarrow> real list" where
  "add_at store px k d = (if k < length px then px[k := store (px ! k + d)] else px)"

text \<open>\<open>for (let i = 0; i < total; i += 4) { ... }\<close> of \<open>granulateSimple\<close>, from \<open>i\<close> on.\<close>

function granulateSimple_loop ::
  "(real \<Rightarrow> real) \<Rightarrow> real \<Rightarrow> bool \<Rightarrow> real \<Rightarrow> nat \<Rightarrow> p5grain \<Rightarrow> real list \<Rightarrow> p5grain \<times> real list" where
  "granulateSimple_loop store amount' alpha' total' i g px =
     (if real i < total' then
        (let (r, g1) = next_random g;
             grainAmount = randomIntInclusive r (- amount') amount';
             px1 = add_at store px i grainAmount;
             px2 = add_at store px1 (i + 1) grainAmount;
             px3 = add_at store px2 (i + 2) grainAmount;
             px4 = (if alpha' then add_at store px3 (i + 3) grainAmount else px3)
         in granulateSimple_loop store amount' alpha' total' (i + 4) g1 px4)
      else (g, px))"
  by pat_completeness auto
termination
  by (relation "measure (\<lambda>(store, amount', alpha', total', i, g, px). nat \<lceil>total'\<rceil> - i)")
     (auto simp: less_ceiling_iff zless_nat_eq_int_zless intro!: diff_less_mono2)

declare granulateSimple_loop.simps [simp del]

text \<open>The same loop of \<open>granulateChannels\<close>: one call of the random function per channel.\<close>

function granulateChannels_loop ::
  "(real \<Rightarrow> real) \<Rightarrow> real \<Rightarrow> bool \<Rightarrow> real \<Rightarrow> nat \<Rightarrow> p5grain \<Rightarrow> real list \<Rightarrow> p5grain \<times> real list" where
  "granulateChannels_loop store amount' alpha' total' i g px =
     (if real i < total' then
        (let (r1, g1) = next_random g;
             px1 = add_at store px i (randomIntInclusive r1 (- amount') amount');
             (r2, g2) = next_random g1;
             px2 = add_at store px1 (i + 1) (randomIntInclusive r2 (- amount') amount');
             (r3, g3) = next_random g2;
             px3 = add_at store px2 (i + 2) (randomIntInclusive r3 (- amount') amount');
             (g4, px4) =
               (if alpha' then
                  (let (r4, g4) = next_random g3
                   in (g4, add_at store px3 (i + 3) (randomIntInclusive r4 (- amount') amount')))
                else (g3, px3))
         in granulateChannels_loop store amount' alpha' total' (i + 4) g4 px4)
      else (g, px))"
  by pat_completeness auto
termination
  by (relation "measure (\<lambda>(store, amount', alpha', total', i, g, px). nat \<lceil>total'\<rceil> - i)")
     (auto simp: less_ceiling_iff zless_nat_eq_int_zless intro!: diff_less_mono2)

declare granulateChannels_loop.simps [simp del]

text \<open>
  The pixel array the call works on (\<open>pg ? pg.pixels : pixels\<close>), and the loop bound
  \<open>4 * (width * density) * (height * density)\<close>: \<open>density\<close> is the target's, \<open>width\<close>
  and \<open>height\<close> are the globals of the main canvas in every case.
\<close>

definition target_pixels :: "surface \<Rightarrow> surface option \<Rightarrow> real list" where
  "target_pixels canvas pg = (case pg of Some b \<Rightarrow> pixels b | None \<Rightarrow> pixels canvas)"

definition total_samples :: "surface \<Rightarrow> surface option \<Rightarrow> real" where
  "total_samples canvas pg =
     (let density = (case pg of Some b \<Rightarrow> pixelDensity b | None \<Rightarrow> pixelDensity canvas)
      in 4 * (width canvas * density) * (height canvas * density))"

text \<open>Both return the new state of the instance, the main canvas and \<open>pg\<close>.\<close>

definition granulateSimple ::
  "(real \<Rightarrow> real) \<Rightarrow> surface \<Rightarrow> p5grain \<Rightarrow> real \<Rightarrow> bool option \<Rightarrow> surface option \<Rightarrow>
     p5grain \<times> surface \<times> surface option" where
  "granulateSimple store canvas g amount alpha pg =
     (let amount' = js_round amount;
          alpha' = (case alpha of Some b \<Rightarrow> b | None \<Rightarrow> False);
          total' = total_samples canvas pg;
          (g', px) = granulateSimple_loop store amount' alpha' total' 0 g (target_pixels canvas pg)
      in case pg of
           Some b \<Rightarrow> (g', canvas, Some (b\<lparr>pixels := px\<rparr>))
         | None \<Rightarrow> (g', canvas\<lparr>pixels := px\<rparr>, None))"

definition granulateChannels ::
  "(real \<Rightarrow> real) \<Rightarrow> surface \<Rightarrow> p5grain \<Rightarrow> real \<Rightarrow> bool option \<Rightarrow> surface option \<Rightarrow>
     p5grain \<times> surface \<times> surface option" where
  "granulateChannels store canvas g amount alpha pg =
     (let amount' = js_round amount;
          alpha' = (case alpha of Some b \<Rightarrow> b | None \<Rightarrow> False);
          total' = total_samples canvas pg;
          (g', px) = granulateChannels_loop store amount' alpha' total' 0 g (target_pixels canvas pg)
      in case pg of
           Some b \<Rightarrow> (g', canvas, Some (b\<lparr>pixels := px\<rparr>))
         | None \<Rightarrow> (g', canvas\<lparr>pixels := px\<rparr>, None))"

text \<open>
  \<open>tinkerPixels\<close>: the callback works on whatever it can reach (the pixel arrays among
  it), here a state of any type; the loop hands it \<open>i\<close> and \<open>total\<close>.
\<close>

function tinkerPixels_loop :: "(nat \<Rightarrow> real \<Rightarrow> 'w \<Rightarrow> 'w) \<Rightarrow> real \<Rightarrow> nat \<Rightarrow> 'w \<Rightarrow> 'w" where
  "tinkerPixels_loop callback total' i w =
     (if real i < total' then tinkerPixels_loop callback total' (i + 4) (callback i total' w)
      else w)"
  by pat_completeness auto
termination
  by (relation "measure (\<lambda>(callback, total', i, w). nat \<lceil>total'\<rceil> - i)")
     (auto simp: less_ceiling_iff zless_nat_eq_int_zless intro!: diff_less_mono2)

declare tinkerPixels_loop.simps [simp del]

definition tinkerPixels ::
  "surface \<Rightarrow> (nat \<Rightarrow> real \<Rightarrow> 'w \<Rightarrow> 'w) \<Rightarrow> surface option \<Rightarrow> 'w \<Rightarrow> 'w" where
  "tinkerPixels canvas callback pg w = tinkerPixels_loop callback (total_samples canvas pg) 0 w"

text \<open>The indexes \<open>i\<close> the three loops visit, in order, from \<open>i\<close> on.\<close>

function visited :: "real \<Rightarrow> nat \<Rightarrow> nat list" where
  "visited total' i = (if real i < total' then i # visited total' (i + 4) else [])"
  by pat_completeness auto
termination
  by (relation "measure (\<lambda>(total', i). nat \<lceil>total'\<rceil> - i)")
     (auto simp: less_ceiling_iff zless_nat_eq_int_zless intro!: diff_less_mono2)

declare visited.simps [simp del]

lemma tiles_along_less:
  assumes "0 < step"
  shows "(lo + real k * step < hi) = (k < tiles_along lo hi step)"
proof -
  have "(k < tiles_along lo hi step) = (int k < \<lceil>(hi - lo) / step\<rceil>)"
    by (simp add: tiles_along_def zless_nat_eq_int_zless)
  also have "\<dots> = (real k < (hi - lo) / step)"
    by (simp add: less_ceiling_iff)
  also have "\<dots> = (real k * step < hi - lo)"
    using assms by (simp add: pos_less_divide_eq)
  finally show ?thesis by auto
qed

lemma tiles_along_step:
  assumes "0 < step"
  shows "tiles_along (lo + step) hi step = tiles_along lo hi step - 1"
proof -
  have "(hi - (lo + step)) / step = (hi - lo) / step - 1"
    using assms by (simp add: field_simps)
  then show ?thesis
    by (simp add: tiles_along_def nat_diff_distrib')
qed

lemma row_calls_0: "row_calls reflect rf cf x y tW tH 0 = []"
  by (simp add: row_calls_def)

lemma row_calls_Suc:
  "row_calls reflect rf cf x y tW tH (Suc n) =
     draw_tile reflect rf cf x y tW tH @ row_calls reflect rf (\<not> cf) (x + tW) y tW tH n"
proof -
  have upt: "[0..<Suc n] = 0 # map Suc [0..<n]"
    by (simp add: upt_conv_Cons map_Suc_upt del: upt_Suc)
  have f: "(\<lambda>k. draw_tile reflect rf (cf = even (Suc k)) (x + real (Suc k) * tW) y tW tH) =
           (\<lambda>k. draw_tile reflect rf ((\<not> cf) = even k) (x + tW + real k * tW) y tW tH)"
  proof (rule ext)
    fix k
    have a: "(cf = even (Suc k)) = ((\<not> cf) = even k)" by auto
    have b: "x + real (Suc k) * tW = x + tW + real k * tW" by (simp add: algebra_simps)
    show "draw_tile reflect rf (cf = even (Suc k)) (x + real (Suc k) * tW) y tW tH =
          draw_tile reflect rf ((\<not> cf) = even k) (x + tW + real k * tW) y tW tH"
      by (simp only: a b)
  qed
  show ?thesis
    unfolding row_calls_def upt
    by (simp add: o_def f del: upt_Suc even_Suc of_nat_Suc)
qed

lemma inner_loop_row:
  assumes "0 < tW" and "tX s < W"
  shows "inner_loop W tW tH anchor reflect s =
           Some (s\<lparr>calls := calls s @ row_calls reflect (tRowFirst s) (tColFirst s) (tX s) (tY s)
                                       tW tH (tiles_along (tX s) W tW),
                   tColFirst := True, tX := anchor, tY := tY s + tH\<rparr>)"
  using assms(2)
proof (induction "tiles_along (tX s) W tW" arbitrary: s)
  case 0
  then show ?case using tiles_along_less [OF assms(1), of "tX s" 0 W] by simp
next
  case (Suc n)
  show ?case
  proof (cases "W \<le> tX s + tW")
    case True
    then have "\<not> (1 < tiles_along (tX s) W tW)"
      using tiles_along_less [OF assms(1), of "tX s" 1 W] by simp
    with Suc.hyps(2) have n: "tiles_along (tX s) W tW = Suc 0" by simp
    show ?thesis
      using True Suc.prems
      by (subst inner_loop.simps) (simp add: n row_calls_Suc row_calls_0 Let_def)
  next
    case False
    let ?s' = "s\<lparr>calls := calls s @ draw_tile reflect (tRowFirst s) (tColFirst s) (tX s) (tY s) tW tH,
                  tX := tX s + tW, tColFirst := \<not> tColFirst s\<rparr>"
    have n: "n = tiles_along (tX ?s') W tW"
      using Suc.hyps(2) by (simp add: tiles_along_step [OF assms(1)])
    have lt: "tX ?s' < W" using False by simp
    have "inner_loop W tW tH anchor reflect s = inner_loop W tW tH anchor reflect ?s'"
      using False Suc.prems by (subst inner_loop.simps) (simp add: Let_def)
    also note Suc.hyps(1) [OF n lt]
    finally show ?thesis
      using n Suc.hyps(2) [symmetric] by (simp add: row_calls_Suc)
  qed
qed

lemma grid_calls_0: "grid_calls reflect rf x y tW tH n 0 = []"
  by (simp add: grid_calls_def)

lemma grid_calls_Suc:
  "grid_calls reflect rf x y tW tH n (Suc m) =
     row_calls reflect rf True x y tW tH n @ grid_calls reflect (\<not> rf) x (y + tH) tW tH n m"
proof -
  have upt: "[0..<Suc m] = 0 # map Suc [0..<m]"
    by (simp add: upt_conv_Cons map_Suc_upt del: upt_Suc)
  have f: "(\<lambda>j. row_calls reflect (rf = even (Suc j)) True x (y + real (Suc j) * tH) tW tH n) =
           (\<lambda>j. row_calls reflect ((\<not> rf) = even j) True x (y + tH + real j * tH) tW tH n)"
  proof (rule ext)
    fix j
    have a: "(rf = even (Suc j)) = ((\<not> rf) = even j)" by auto
    have b: "y + real (Suc j) * tH = y + tH + real j * tH" by (simp add: algebra_simps)
    show "row_calls reflect (rf = even (Suc j)) True x (y + real (Suc j) * tH) tW tH n =
          row_calls reflect ((\<not> rf) = even j) True x (y + tH + real j * tH) tW tH n"
      by (simp only: a b)
  qed
  show ?thesis
    unfolding grid_calls_def upt
    by (simp add: o_def f del: upt_Suc even_Suc of_nat_Suc)
qed

lemma outer_loop_grid:
  assumes "0 < tW" and "0 < tH" and "anchor < W"
  shows "tX s = anchor \<Longrightarrow> tColFirst s = True \<Longrightarrow>
         outer_loop W H tW tH anchor reflect s =
           Some (s\<lparr>calls := calls s @ grid_calls reflect (tRowFirst s) anchor (tY s) tW tH
                                       (tiles_along anchor W tW) (tiles_along (tY s) H tH),
                   tRowFirst := (tRowFirst s = even (tiles_along (tY s) H tH)),
                   tY := tY s + real (tiles_along (tY s) H tH) * tH\<rparr>)"
proof (induction "tiles_along (tY s) H tH" arbitrary: s)
  case 0
  then have "\<not> tY s < H"
    using tiles_along_less [OF assms(2), of "tY s" 0 H] by simp
  then show ?case
    using 0 by (subst outer_loop.simps) (simp add: grid_calls_0)
next
  case (Suc m)
  then have lt: "tY s < H"
    using tiles_along_less [OF assms(2), of "tY s" 0 H] by simp
  let ?s' = "s\<lparr>calls := calls s @ row_calls reflect (tRowFirst s) True anchor (tY s)
                                       tW tH (tiles_along anchor W tW),
                tColFirst := True, tX := anchor, tY := tY s + tH,
                tRowFirst := \<not> tRowFirst s\<rparr>"
  have inner: "inner_loop W tW tH anchor reflect s =
                 Some (s\<lparr>calls := calls s @ row_calls reflect (tRowFirst s) True anchor (tY s)
                                       tW tH (tiles_along anchor W tW),
                         tColFirst := True, tX := anchor, tY := tY s + tH\<rparr>)"
    using inner_loop_row [OF assms(1), of s W tH anchor reflect] assms(3) Suc.prems by simp
  have m: "m = tiles_along (tY ?s') H tH"
    using Suc.hyps(2) by (simp add: tiles_along_step [OF assms(2)])
  have "outer_loop W H tW tH anchor reflect s = outer_loop W H tW tH anchor reflect ?s'"
    using lt by (subst outer_loop.simps) (simp add: inner)
  also have "\<dots> = Some (?s'\<lparr>calls := calls ?s' @ grid_calls reflect (tRowFirst ?s') anchor (tY ?s') tW tH
                                       (tiles_along anchor W tW) (tiles_along (tY ?s') H tH),
                   tRowFirst := (tRowFirst ?s' = even (tiles_along (tY ?s') H tH)),
                   tY := tY ?s' + real (tiles_along (tY ?s') H tH) * tH\<rparr>)"
    by (rule Suc.hyps(1) [OF m]) simp_all
  finally have eq: "outer_loop W H tW tH anchor reflect s = Some (?s'\<lparr>calls := calls ?s' @ grid_calls reflect (tRowFirst ?s') anchor (tY ?s') tW tH
                                       (tiles_along anchor W tW) (tiles_along (tY ?s') H tH),
                   tRowFirst := (tRowFirst ?s' = even (tiles_along (tY ?s') H tH)),
                   tY := tY ?s' + real (tiles_along (tY ?s') H tH) * tH\<rparr>)" .
  show ?case
    unfolding eq option.inject
    by (rule sweep_state.equality)
       (use m Suc.hyps(2) [symmetric] Suc.prems in \<open>auto simp: grid_calls_Suc algebra_simps\<close>)
qed

lemma sweep_grid:
  assumes "0 < tW" and "0 < tH" and "ax < W"
  shows "sweep W H tW tH reflect ax ay =
           Some (grid_calls reflect True ax ay tW tH (tiles_along ax W tW) (tiles_along ay H tH))"
  unfolding sweep_def
  by (subst outer_loop_grid [OF assms]) simp_all

lemma sweep_empty:
  assumes "H \<le> ay"
  shows "sweep W H tW tH reflect ax ay = Some []"
  unfolding sweep_def using assms
  by (subst outer_loop.simps) simp

lemma render_draw_tile:
  assumes "0 \<le> w" and "0 \<le> h"
  shows "render (1, 1) stk (draw_tile reflect rf cf x y w h @ cs) =
           placed_tile reflect rf cf x y w h # render (1, 1) stk cs"
  using assms by (simp add: draw_tile_def placed_tile_def)

lemma render_row_calls:
  assumes "0 \<le> tW" and "0 \<le> tH"
  shows "render (1, 1) stk (row_calls reflect rf cf x y tW tH n @ cs) =
           map (\<lambda>k. placed_tile reflect rf (cf = even k) (x + real k * tW) y tW tH) [0..<n] @
           render (1, 1) stk cs"
proof (induction n arbitrary: cs)
  case 0
  show ?case by (simp add: row_calls_def)
next
  case (Suc n)
  have "row_calls reflect rf cf x y tW tH (Suc n) =
          row_calls reflect rf cf x y tW tH n @
          draw_tile reflect rf (cf = even n) (x + real n * tW) y tW tH"
    by (simp add: row_calls_def)
  then show ?case
    by (simp add: Suc.IH render_draw_tile [OF assms])
qed

lemma render_grid_calls:
  assumes "0 \<le> tW" and "0 \<le> tH"
  shows "render (1, 1) stk (grid_calls reflect rf x y tW tH n m @ cs) =
           concat (map (\<lambda>j. map (\<lambda>k. placed_tile reflect (rf = even j) (even k)
                                        (x + real k * tW) (y + real j * tH) tW tH) [0..<n])
                       [0..<m]) @
           render (1, 1) stk cs"
proof (induction m arbitrary: cs)
  case 0
  show ?case by (simp add: grid_calls_def)
next
  case (Suc m)
  have "grid_calls reflect rf x y tW tH n (Suc m) =
          grid_calls reflect rf x y tW tH n m @
          row_calls reflect (rf = even m) True x (y + real m * tH) tW tH n"
    by (simp add: grid_calls_def)
  then show ?case
    by (simp add: Suc.IH render_row_calls [OF assms])
qed

lemma set_render_grid:
  assumes "0 \<le> tW" and "0 \<le> tH"
  shows "set (render (1, 1) [] (grid_calls reflect rf x y tW tH n m)) =
           {placed_tile reflect (rf = even j) (even k) (x + real k * tW) (y + real j * tH) tW tH
            | j k. j < m \<and> k < n}"
  using render_grid_calls [OF assms, of "[]" reflect rf x y n m "[]"]
  by fastforce

lemma inner_loop_Some_advances:
  assumes "inner_loop W0 tW0 tH0 anchor0 reflect0 s0 = Some y0"
  shows "\<not> (tW0 \<le> 0 \<and> tX s0 < W0)"
proof (rule inner_loop.raw_induct
    [where P = "\<lambda>W tW tH anchor reflect s y. \<not> (tW \<le> 0 \<and> tX s < W)", OF _ assms])
  fix f :: "real \<Rightarrow> real \<Rightarrow> real \<Rightarrow> real \<Rightarrow> bool \<Rightarrow> sweep_state \<Rightarrow> sweep_state option"
    and W tW tH anchor reflect s and y :: sweep_state
  assume IH: "\<And>W tW tH anchor reflect s y.
     f W tW tH anchor reflect s = Some y \<Longrightarrow> \<not> (tW \<le> 0 \<and> tX s < W)"
  assume hyp: "(if tX s < W then
        (let s1 = s\<lparr>calls := calls s @
                          draw_tile reflect (tRowFirst s) (tColFirst s) (tX s) (tY s) tW tH,
                     tX := tX s + tW\<rparr>
         in if tX s1 \<ge> W
            then Some (s1\<lparr>tColFirst := True, tX := anchor, tY := tY s1 + tH\<rparr>)
            else f W tW tH anchor reflect (s1\<lparr>tColFirst := \<not> tColFirst s1\<rparr>))
      else Some s) = Some y"
  show "\<not> (tW \<le> 0 \<and> tX s < W)"
  proof
    assume a: "tW \<le> 0 \<and> tX s < W"
    then have "tX s + tW < W" by simp
    with a hyp have "f W tW tH anchor reflect
       (s\<lparr>calls := calls s @ draw_tile reflect (tRowFirst s) (tColFirst s) (tX s) (tY s) tW tH,
          tX := tX s + tW, tColFirst := \<not> tColFirst s\<rparr>) = Some y"
      by (simp add: Let_def)
    from IH [OF this] a show False by simp
  qed
qed

lemma inner_loop_diverges:
  assumes "tW \<le> 0" and "tX s < W"
  shows "inner_loop W tW tH anchor reflect s = None"
proof (cases "inner_loop W tW tH anchor reflect s")
  case None
  then show ?thesis .
next
  case (Some y)
  from inner_loop_Some_advances [OF this] assms show ?thesis by simp
qed

lemma outer_loop_Some_advances:
  assumes "outer_loop W0 H0 tW0 tH0 anchor0 reflect0 s0 = Some y0"
  shows "\<not> (tY s0 < H0 \<and> (W0 \<le> tX s0 \<or> tW0 \<le> 0 \<or> (tX s0 = anchor0 \<and> tH0 \<le> 0)))"
proof (rule outer_loop.raw_induct
    [where P = "\<lambda>W H tW tH anchor reflect s y.
       \<not> (tY s < H \<and> (W \<le> tX s \<or> tW \<le> 0 \<or> (tX s = anchor \<and> tH \<le> 0)))", OF _ assms])
  fix f :: "real \<Rightarrow> real \<Rightarrow> real \<Rightarrow> real \<Rightarrow> real \<Rightarrow> bool \<Rightarrow> sweep_state \<Rightarrow> sweep_state option"
    and W H tW tH anchor reflect s and y :: sweep_state
  assume IH: "\<And>W H tW tH anchor reflect s y.
     f W H tW tH anchor reflect s = Some y \<Longrightarrow>
       \<not> (tY s < H \<and> (W \<le> tX s \<or> tW \<le> 0 \<or> (tX s = anchor \<and> tH \<le> 0)))"
  assume hyp: "(if tY s < H then
        (case inner_loop W tW tH anchor reflect s of
           None \<Rightarrow> None
         | Some s' \<Rightarrow> f W H tW tH anchor reflect (s'\<lparr>tRowFirst := \<not> tRowFirst s'\<rparr>))
      else Some s) = Some y"
  show "\<not> (tY s < H \<and> (W \<le> tX s \<or> tW \<le> 0 \<or> (tX s = anchor \<and> tH \<le> 0)))"
  proof
    assume a: "tY s < H \<and> (W \<le> tX s \<or> tW \<le> 0 \<or> (tX s = anchor \<and> tH \<le> 0))"
    consider (stuck) "W \<le> tX s" | (flat) "tX s < W" "tW \<le> 0"
      | (upward) "tX s < W" "0 < tW" "tX s = anchor" "tH \<le> 0"
      using a by fastforce
    then show False
    proof cases
      case stuck
      then have "inner_loop W tW tH anchor reflect s = Some s"
        by (subst inner_loop.simps) simp
      with a hyp have "f W H tW tH anchor reflect (s\<lparr>tRowFirst := \<not> tRowFirst s\<rparr>) = Some y"
        by simp
      from IH [OF this] a stuck show False by simp
    next
      case flat
      then have "inner_loop W tW tH anchor reflect s = None"
        by (simp add: inner_loop_diverges)
      with a hyp show False by simp
    next
      case upward
      let ?s' = "s\<lparr>calls := calls s @ row_calls reflect (tRowFirst s) (tColFirst s) (tX s) (tY s)
                                       tW tH (tiles_along (tX s) W tW),
                   tColFirst := True, tX := anchor, tY := tY s + tH\<rparr>"
      have "inner_loop W tW tH anchor reflect s = Some ?s'"
        using upward by (simp add: inner_loop_row)
      with a hyp have "f W H tW tH anchor reflect (?s'\<lparr>tRowFirst := \<not> tRowFirst ?s'\<rparr>) = Some y"
        by simp
      from IH [OF this] a upward show False by simp
    qed
  qed
qed

lemma sweep_diverges_iff:
  "sweep W H tW tH reflect ax ay = None \<longleftrightarrow> ay < H \<and> (W \<le> ax \<or> tW \<le> 0 \<or> tH \<le> 0)"
proof
  assume none: "sweep W H tW tH reflect ax ay = None"
  show "ay < H \<and> (W \<le> ax \<or> tW \<le> 0 \<or> tH \<le> 0)"
  proof (rule ccontr)
    assume "\<not> (ay < H \<and> (W \<le> ax \<or> tW \<le> 0 \<or> tH \<le> 0))"
    then consider "H \<le> ay" | "ax < W" "0 < tW" "0 < tH" by fastforce
    then show False
    proof cases
      case 1
      with none show False by (simp add: sweep_empty)
    next
      case 2
      with none show False by (simp add: sweep_grid)
    qed
  qed
next
  assume a: "ay < H \<and> (W \<le> ax \<or> tW \<le> 0 \<or> tH \<le> 0)"
  let ?s = "\<lparr>tX = ax, tY = ay, tRowFirst = True, tColFirst = True, calls = []\<rparr>"
  have "outer_loop W H tW tH ax reflect ?s = None"
  proof (cases "outer_loop W H tW tH ax reflect ?s")
    case None
    then show ?thesis .
  next
    case (Some y)
    from outer_loop_Some_advances [OF this] a show ?thesis by simp
  qed
  then show "sweep W H tW tH reflect ax ay = None"
    by (simp add: sweep_def)
qed

lemma example_tiles: "tiles_along 0 10 4 = 3"
  by (simp add: tiles_along_def)

lemma example_sweep:
  "sweep 10 10 4 4 False 0 0 =
     Some [Image 0 0 4 4, Image 4 0 4 4, Image 8 0 4 4,
           Image 0 4 4 4, Image 4 4 4 4, Image 8 4 4 4,
           Image 0 8 4 4, Image 4 8 4 4, Image 8 8 4 4]"
  by (simp add: sweep_def outer_loop.simps inner_loop.simps draw_tile_def Let_def)

lemma tile_index:
  assumes "0 < step" and "lo \<le> c" and "c < hi"
  shows "\<exists>k. k < tiles_along lo hi step \<and> lo + real k * step \<le> c \<and> c < lo + real k * step + step"
proof -
  define k where "k = nat \<lfloor>(c - lo) / step\<rfloor>"
  have nonneg: "0 \<le> (c - lo) / step" using assms by simp
  then have rk: "real k = real_of_int \<lfloor>(c - lo) / step\<rfloor>"
    by (simp add: k_def)
  have le: "real k \<le> (c - lo) / step" unfolding rk by (rule of_int_floor_le)
  have lt: "(c - lo) / step < real k + 1" unfolding rk by linarith
  have 1: "lo + real k * step \<le> c"
    using le assms(1) by (simp add: pos_le_divide_eq algebra_simps)
  have 2: "c < lo + real k * step + step"
    using lt assms(1) by (simp add: pos_divide_less_eq algebra_simps)
  from 1 assms(3) have "lo + real k * step < hi" by simp
  then have "k < tiles_along lo hi step"
    by (simp add: tiles_along_less [OF assms(1)])
  with 1 2 show ?thesis by blast
qed

lemma sweep_covers:
  assumes "0 < tW" and "0 < tH" and "ax \<le> cx" and "cx < W" and "ay \<le> cy" and "cy < H"
  shows "\<exists>cs p. sweep W H tW tH reflect ax ay = Some cs \<and>
                p \<in> set (render (1, 1) [] cs) \<and> covers p (cx, cy)"
proof -
  let ?n = "tiles_along ax W tW" and ?m = "tiles_along ay H tH"
  have "ax < W" using assms by simp
  then have sw: "sweep W H tW tH reflect ax ay = Some (grid_calls reflect True ax ay tW tH ?n ?m)"
    using assms by (simp add: sweep_grid)
  obtain k where k: "k < ?n" "ax + real k * tW \<le> cx" "cx < ax + real k * tW + tW"
    using tile_index [OF assms(1) assms(3) assms(4)] by blast
  obtain j where j: "j < ?m" "ay + real j * tH \<le> cy" "cy < ay + real j * tH + tH"
    using tile_index [OF assms(2) assms(5) assms(6)] by blast
  let ?p = "placed_tile reflect (True = even j) (even k) (ax + real k * tW) (ay + real j * tH) tW tH"
  have "?p \<in> set (render (1, 1) [] (grid_calls reflect True ax ay tW tH ?n ?m))"
    using assms(1,2) k(1) j(1) by (subst set_render_grid) auto
  moreover have "covers ?p (cx, cy)"
    using k j by (simp add: covers_def placed_tile_def)
  ultimately show ?thesis using sw by blast
qed

lemma example_overlay:
  "textureOverlay \<lparr>width = 10, height = 10, pixelDensity = d, pixels = px\<rparr> (new_P5Grain rnd)
       (P5Image 4 4) (ConfigObject no_properties) (PgValue JUndefined) =
     Returns (new_P5Grain rnd)
       [BlendMode MULTIPLY,
        Image 0 0 4 4, Image 4 0 4 4, Image 8 0 4 4,
        Image 0 4 4 4, Image 4 4 4 4, Image 8 4 4 4,
        Image 0 8 4 4, Image 4 8 4 4, Image 8 8 4 4,
        BlendMode BLEND]"
  by (simp add: textureOverlay_def validateArguments_textureOverlay_def new_P5Grain_def
      no_properties_def overlay_animate_def example_sweep)

lemma render_sweep:
  assumes "0 < tW" and "0 < tH" and "ax < W"
  shows "\<exists>cs. sweep W H tW tH reflect ax ay = Some cs \<and>
           cs = concat (map (\<lambda>j. concat (map (\<lambda>k. draw_tile reflect (even j) (even k)
                                                    (ax + real k * tW) (ay + real j * tH) tW tH)
                                          [0..<tiles_along ax W tW]))
                            [0..<tiles_along ay H tH]) \<and>
           render (1, 1) [] cs =
             concat (map (\<lambda>j. map (\<lambda>k. placed_tile reflect (even j) (even k)
                                          (ax + real k * tW) (ay + real j * tH) tW tH)
                                [0..<tiles_along ax W tW])
                         [0..<tiles_along ay H tH])"
proof -
  let ?cs = "grid_calls reflect True ax ay tW tH (tiles_along ax W tW) (tiles_along ay H tH)"
  have 1: "sweep W H tW tH reflect ax ay = Some ?cs"
    using assms by (rule sweep_grid)
  have 2: "?cs = concat (map (\<lambda>j. concat (map (\<lambda>k. draw_tile reflect (even j) (even k)
                                                    (ax + real k * tW) (ay + real j * tH) tW tH)
                                          [0..<tiles_along ax W tW]))
                            [0..<tiles_along ay H tH])"
    by (simp add: grid_calls_def row_calls_def)
  have 3: "render (1, 1) [] ?cs =
             concat (map (\<lambda>j. map (\<lambda>k. placed_tile reflect (even j) (even k)
                                          (ax + real k * tW) (ay + real j * tH) tW tH)
                                [0..<tiles_along ax W tW])
                         [0..<tiles_along ay H tH])"
    using assms render_grid_calls
      [of tW tH "[]" reflect True ax ay "tiles_along ax W tW" "tiles_along ay H tH" "[]"]
    by simp
  from 1 2 3 show ?thesis by blast
qed

lemma grid_right_neighbour:
  assumes "0 < tW" and "0 < tH"
    and p: "p = placed_tile True (even j) (even k) (ax + real k * tW) (ay + real j * tH) tW tH"
    and q: "q = placed_tile True (even j') (even k') (ax + real k' * tW) (ay + real j' * tH) tW tH"
    and "p_top q = p_top p" and "p_left q = p_right p"
  shows "p_mirrorX q = (\<not> p_mirrorX p) \<and> p_mirrorY q = p_mirrorY p"
proof -
  have "real j' * tH = real j * tH" using assms by (simp add: placed_tile_def)
  then have j: "j' = j" using assms(2) by simp
  have "real k' * tW = real (Suc k) * tW" using assms by (simp add: placed_tile_def algebra_simps)
  then have "real k' = real (Suc k)" using assms(1) by (simp del: of_nat_Suc)
  then have k: "k' = Suc k" by (simp only: of_nat_eq_iff)
  show ?thesis by (simp add: p q j k placed_tile_def)
qed

lemma grid_lower_neighbour:
  assumes "0 < tW" and "0 < tH"
    and p: "p = placed_tile True (even j) (even k) (ax + real k * tW) (ay + real j * tH) tW tH"
    and q: "q = placed_tile True (even j') (even k') (ax + real k' * tW) (ay + real j' * tH) tW tH"
    and "p_left q = p_left p" and "p_top q = p_bottom p"
  shows "p_mirrorY q = (\<not> p_mirrorY p) \<and> p_mirrorX q = p_mirrorX p"
proof -
  have "real k' * tW = real k * tW" using assms by (simp add: placed_tile_def)
  then have k: "k' = k" using assms(1) by simp
  have "real j' * tH = real (Suc j) * tH" using assms by (simp add: placed_tile_def algebra_simps)
  then have "real j' = real (Suc j)" using assms(2) by (simp del: of_nat_Suc)
  then have j: "j' = Suc j" by (simp only: of_nat_eq_iff)
  show ?thesis by (simp add: p q j k placed_tile_def)
qed

lemma textureOverlay_valid:
  assumes "validateArguments_textureOverlay g textureImage config pg = None"
    and "properties config = Some c"
    and "tile_size (cfg_width c) (texture_width textureImage) = Some tW"
    and "tile_size (cfg_height c) (texture_height textureImage) = Some tH"
    and "\<not> (truthy_pg pg \<and> \<not> instanceof_Graphics pg)"
    and "g' = overlay_animate (animate_truthy (cfg_animate c)) (overlay_atFrame (cfg_animate c))
                (overlay_amount (cfg_animate c) (target_width canvas pg) (target_height canvas pg)) g"
  shows "textureOverlay canvas g textureImage config pg =
           (case sweep (target_width canvas pg) (target_height canvas pg) tW tH
                   (truthy (cfg_reflect c)) (to_tX_anchor g') (to_tY g') of
              None \<Rightarrow> Diverges
            | Some cs \<Rightarrow>
                Returns g'
                  ([BlendMode (if truthy (cfg_mode c) then cfg_mode c else MULTIPLY)] @ cs @
                   [BlendMode BLEND] @ (if instanceof_Graphics pg then [Reset] else [])))"
  using assms(1-5) unfolding assms(6) by (auto simp: textureOverlay_def Let_def)

lemma validate_ignores_values:
  "validateArguments_textureOverlay g textureImage
       (ConfigObject (c\<lparr>cfg_width := JNum w, cfg_height := JNum h\<rparr>)) pg =
   validateArguments_textureOverlay g textureImage
       (ConfigObject (c\<lparr>cfg_width := JNum w', cfg_height := JNum h'\<rparr>)) pg"
  by (simp add: validateArguments_textureOverlay_def)

lemma textureOverlay_degenerate_diverges:
  assumes "validateArguments_textureOverlay g textureImage (ConfigObject c) pg = None"
    and "tile_size (cfg_width c) (texture_width textureImage) = Some tW"
    and "tile_size (cfg_height c) (texture_height textureImage) = Some tH"
    and "tW \<le> 0 \<or> tH \<le> 0"
    and "\<not> (truthy_pg pg \<and> \<not> instanceof_Graphics pg)"
    and "g' = overlay_animate (animate_truthy (cfg_animate c)) (overlay_atFrame (cfg_animate c))
                (overlay_amount (cfg_animate c) (target_width canvas pg) (target_height canvas pg)) g"
    and "to_tY g' < target_height canvas pg"
  shows "textureOverlay canvas g textureImage (ConfigObject c) pg = Diverges"
proof -
  have "sweep (target_width canvas pg) (target_height canvas pg) tW tH
          (truthy (cfg_reflect c)) (to_tX_anchor g') (to_tY g') = None"
    using assms(4,7) by (simp add: sweep_diverges_iff)
  moreover have "properties (ConfigObject c) = Some c" by simp
  ultimately show ?thesis
    by (simp add: textureOverlay_valid [OF assms(1) _ assms(2) assms(3) assms(5) assms(6)])
qed

lemma textureOverlay_undefined_config:
  "textureOverlay canvas g textureImage (ConfigValue JUndefined) pg =
     Throws (case validateArguments_textureOverlay g textureImage (ConfigValue JUndefined) pg of
               Some e \<Rightarrow> e | None \<Rightarrow> TypeError) g"
  by (simp add: textureOverlay_def Let_def split: option.splits)

lemma overlay_animate_keep:
  assumes "\<not> (animate \<and> atFrame \<le> to_frameCount g + 1)"
  shows "to_tX_anchor (overlay_animate animate atFrame amount g) = to_tX_anchor g \<and>
         to_tY (overlay_animate animate atFrame amount g) = to_tY g"
  using assms by (auto simp: overlay_animate_def Let_def)

lemma overlay_animate_count:
  assumes "animate" and "to_frameCount g + 1 < atFrame"
  shows "to_frameCount (overlay_animate animate atFrame amount g) = to_frameCount g + 1"
  using assms by (simp add: overlay_animate_def Let_def)

lemma overlay_animate_redraw:
  assumes "animate" and "atFrame \<le> to_frameCount g + 1"
  shows "to_frameCount (overlay_animate animate atFrame amount g) = 0 \<and>
         to_tX_anchor (overlay_animate animate atFrame amount g) =
           - js_floor (random_fn g (drawn g) * amount) \<and>
         to_tY (overlay_animate animate atFrame amount g) =
           - js_floor (random_fn g (drawn g + 1) * amount)"
  using assms by (simp add: overlay_animate_def Let_def next_random_def)

lemma overlay_animate_random_fn:
  "random_fn (overlay_animate animate atFrame amount g) = random_fn g"
  by (simp add: overlay_animate_def Let_def next_random_def)

lemma textureOverlay_state:
  assumes "textureOverlay canvas g textureImage (ConfigObject c) pg = Returns g' cs \<or>
           textureOverlay canvas g textureImage (ConfigObject c) pg = Throws e g'"
  shows "g' = g \<or>
         g' = overlay_animate (animate_truthy (cfg_animate c)) (overlay_atFrame (cfg_animate c))
                (overlay_amount (cfg_animate c) (target_width canvas pg) (target_height canvas pg)) g"
  using assms by (auto simp: textureOverlay_def Let_def split: option.splits if_splits)

lemma textureOverlay_Returns_state:
  assumes "textureOverlay canvas g textureImage (ConfigObject c) pg = Returns g' cs"
  shows "g' = overlay_animate (animate_truthy (cfg_animate c)) (overlay_atFrame (cfg_animate c))
                (overlay_amount (cfg_animate c) (target_width canvas pg) (target_height canvas pg)) g"
  using assms by (auto simp: textureOverlay_def Let_def split: option.splits if_splits)

lemma textureOverlay_returns:
  assumes "validateArguments_textureOverlay g textureImage config pg = None"
    and "properties config = Some c"
    and "tile_size (cfg_width c) (texture_width textureImage) = Some tW"
    and "tile_size (cfg_height c) (texture_height textureImage) = Some tH"
    and "\<not> (truthy_pg pg \<and> \<not> instanceof_Graphics pg)"
    and "g' = overlay_animate (animate_truthy (cfg_animate c)) (overlay_atFrame (cfg_animate c))
                (overlay_amount (cfg_animate c) (target_width canvas pg) (target_height canvas pg)) g"
    and "0 < tW" and "0 < tH" and "to_tX_anchor g' < target_width canvas pg"
  shows "\<exists>cs. textureOverlay canvas g textureImage config pg = Returns g' cs"
  by (simp add: textureOverlay_valid [OF assms(1-6)] sweep_grid [OF assms(7-9)])

lemma textureAnimate_keep:
  assumes "ta_frameCount g + 1 < animate_atFrame config"
  shows "textureAnimate canvas g el config = (g\<lparr>ta_frameCount := ta_frameCount g + 1\<rparr>, el)"
  using assms by (simp add: textureAnimate_def Let_def)

lemma textureAnimate_redraw:
  assumes "animate_atFrame config \<le> ta_frameCount g + 1"
  shows "ta_frameCount (fst (textureAnimate canvas g el config)) = 0"
  using assms by (simp add: textureAnimate_def Let_def next_random_def split: prod.splits)

lemma overlay_animate_anchor_sign:
  assumes "\<forall>n. 0 \<le> random_fn g n" and "0 \<le> amount"
    and "to_tX_anchor g \<le> 0" and "to_tY g \<le> 0"
  shows "to_tX_anchor (overlay_animate animate atFrame amount g) \<le> 0 \<and>
         to_tY (overlay_animate animate atFrame amount g) \<le> 0"
proof (cases "animate \<and> atFrame \<le> to_frameCount g + 1")
  case True
  have "0 \<le> random_fn g n * amount" for n
    using assms(1,2) by simp
  then have "0 \<le> js_floor (random_fn g n * amount)" for n
    by (simp add: js_floor_def)
  then show ?thesis
    using True by (simp add: overlay_animate_redraw)
next
  case False
  then show ?thesis
    using assms(3,4) overlay_animate_keep [OF False, of amount] by simp
qed

lemma textureOverlay_anchor_sign:
  assumes "animated_call canvas (textureImage, config, pg)"
    and "\<forall>n. 0 \<le> random_fn g n"
    and "to_tX_anchor g \<le> 0" and "to_tY g \<le> 0"
    and "textureOverlay canvas g textureImage config pg = Returns g' cs \<or>
         textureOverlay canvas g textureImage config pg = Throws e g'"
  shows "random_fn g' = random_fn g \<and> to_tX_anchor g' \<le> 0 \<and> to_tY g' \<le> 0"
proof -
  obtain c where c: "config = ConfigObject c"
    using assms(1) by (cases config) simp_all
  have amount: "0 \<le> overlay_amount (cfg_animate c) (target_width canvas pg) (target_height canvas pg)"
    using assms(1) c by simp
  from textureOverlay_state [of canvas g textureImage c pg g' cs e] assms(5) c
  consider "g' = g"
    | "g' = overlay_animate (animate_truthy (cfg_animate c)) (overlay_atFrame (cfg_animate c))
                (overlay_amount (cfg_animate c) (target_width canvas pg) (target_height canvas pg)) g"
    by blast
  then show ?thesis
  proof cases
    case 1
    then show ?thesis using assms(3,4) by simp
  next
    case 2
    then show ?thesis
      using overlay_animate_anchor_sign [OF assms(2) amount assms(3,4)]
      by (simp add: overlay_animate_random_fn)
  qed
qed

lemma overlay_calls_anchor_sign:
  assumes "\<forall>n. 0 \<le> random_fn g n"
    and "to_tX_anchor g \<le> 0" and "to_tY g \<le> 0"
    and "list_all (animated_call canvas) cls"
    and "overlay_calls canvas g cls = Some g'"
  shows "to_tX_anchor g' \<le> 0 \<and> to_tY g' \<le> 0"
  using assms
proof (induction cls arbitrary: g)
  case Nil
  then show ?case by simp
next
  case (Cons cl cls)
  obtain textureImage config pg where cl: "cl = (textureImage, config, pg)"
    by (cases cl) auto
  from Cons.prems(5) obtain g1 where
    step: "(\<exists>cs. textureOverlay canvas g textureImage config pg = Returns g1 cs) \<or>
           (\<exists>e. textureOverlay canvas g textureImage config pg = Throws e g1)"
    and rest: "overlay_calls canvas g1 cls = Some g'"
    unfolding cl by (auto split: outcome.splits)
  from step obtain cs e where
    "textureOverlay canvas g textureImage config pg = Returns g1 cs \<or>
     textureOverlay canvas g textureImage config pg = Throws e g1"
    by blast
  from textureOverlay_anchor_sign [OF _ Cons.prems(1,2,3) this] Cons.prems(4)
  have "random_fn g1 = random_fn g \<and> to_tX_anchor g1 \<le> 0 \<and> to_tY g1 \<le> 0"
    by (simp add: cl)
  then show ?case
    using Cons.IH [of g1] Cons.prems(1,4) rest by simp
qed

lemma example_calls:
  "overlay_calls \<lparr>width = 10, height = 10, pixelDensity = 1, pixels = replicate 400 255\<rparr>
      (new_P5Grain (\<lambda>n. 1 / 2))
      [(P5Image 10 10, ConfigObject (no_properties\<lparr>cfg_animate := AnimateBool True\<rparr>),
        PgValue JUndefined),
       (P5Image 10 10, ConfigObject (no_properties\<lparr>cfg_animate := AnimateBool True\<rparr>),
        PgValue JUndefined),
       (P5Image 10 10, ConfigObject (no_properties\<lparr>cfg_animate := AnimateBool True\<rparr>),
        PgValue JUndefined)] =
    Some ((new_P5Grain (\<lambda>n. 1 / 2))\<lparr>drawn := 2, to_frameCount := 1, to_tX_anchor := - 5,
                                          to_tY := - 5\<rparr>)"
  by (simp add: textureOverlay_def validateArguments_textureOverlay_def no_properties_def
      new_P5Grain_def overlay_animate_def next_random_def js_floor_def Let_def
      sweep_def outer_loop.simps inner_loop.simps draw_tile_def)

lemma randomIntInclusive_int:
  "randomIntInclusive r (- real_of_int a) (real_of_int a) =
     real_of_int \<lfloor>r * (2 * real_of_int a + 1) - real_of_int a\<rfloor>"
proof -
  have "r * (real_of_int a - real_of_int (- a) + 1) + real_of_int (- a) =
        r * (2 * real_of_int a + 1) - real_of_int a"
    by (simp add: algebra_simps)
  then show ?thesis
    by (simp add: randomIntInclusive_def js_floor_def js_ceil_def Let_def)
qed

lemma randomIntInclusive_range:
  assumes "0 \<le> a" and "0 \<le> r" and "r < 1"
  shows "- real_of_int a \<le> randomIntInclusive r (- real_of_int a) (real_of_int a) \<and>
         randomIntInclusive r (- real_of_int a) (real_of_int a) \<le> real_of_int a"
proof -
  let ?x = "r * (2 * real_of_int a + 1) - real_of_int a"
  have pos: "0 < 2 * real_of_int a + 1" using assms(1) by simp
  have "0 \<le> r * (2 * real_of_int a + 1)" using assms(2) pos by simp
  then have lo: "real_of_int (- a) \<le> ?x" by simp
  have "r * (2 * real_of_int a + 1) < 1 * (2 * real_of_int a + 1)"
    using assms(3) pos by (simp only: mult_less_cancel_right_pos)
  then have hi: "?x < real_of_int (a + 1)" by simp
  from lo have "- a \<le> \<lfloor>?x\<rfloor>" by (simp only: le_floor_iff)
  moreover from hi have "\<lfloor>?x\<rfloor> < a + 1" by (simp only: floor_less_iff)
  ultimately have "- a \<le> \<lfloor>?x\<rfloor> \<and> \<lfloor>?x\<rfloor> \<le> a" by simp
  then have "real_of_int (- a) \<le> real_of_int \<lfloor>?x\<rfloor> \<and> real_of_int \<lfloor>?x\<rfloor> \<le> real_of_int a"
    by (simp only: of_int_le_iff)
  then show ?thesis by (simp add: randomIntInclusive_int)
qed

lemma randomIntInclusive_uniform:
  assumes "0 \<le> a"
  shows "randomIntInclusive r (- real_of_int a) (real_of_int a) = real_of_int k \<longleftrightarrow>
         real_of_int (k + a) / real_of_int (2 * a + 1) \<le> r \<and>
         r < real_of_int (k + a + 1) / real_of_int (2 * a + 1)"
proof -
  let ?x = "r * (2 * real_of_int a + 1) - real_of_int a"
  have pos: "0 < real_of_int (2 * a + 1)" using assms by simp
  have "randomIntInclusive r (- real_of_int a) (real_of_int a) = real_of_int k \<longleftrightarrow> \<lfloor>?x\<rfloor> = k"
    by (simp only: randomIntInclusive_int of_int_eq_iff)
  also have "\<dots> \<longleftrightarrow> real_of_int k \<le> ?x \<and> ?x < real_of_int k + 1"
    by (rule floor_eq_iff)
  also have "\<dots> \<longleftrightarrow> real_of_int (k + a) \<le> r * real_of_int (2 * a + 1) \<and>
                       r * real_of_int (2 * a + 1) < real_of_int (k + a + 1)"
    by (auto simp: algebra_simps)
  also have "\<dots> \<longleftrightarrow> real_of_int (k + a) / real_of_int (2 * a + 1) \<le> r \<and>
                       r < real_of_int (k + a + 1) / real_of_int (2 * a + 1)"
    using pos by (simp only: pos_divide_le_eq pos_less_divide_eq)
  finally show ?thesis .
qed

lemma randomIntInclusive_negative:
  "randomIntInclusive r (real_of_int a) (- real_of_int a) =
     real_of_int \<lfloor>real_of_int a - r * (2 * real_of_int a - 1)\<rfloor>"
proof -
  have "r * (real_of_int (- a) - real_of_int a + 1) + real_of_int a =
        real_of_int a - r * (2 * real_of_int a - 1)"
    by (simp add: algebra_simps)
  then show ?thesis
    using floor_of_int [of "- a", where ?'a = real] ceiling_of_int [of a, where ?'a = real]
    by (simp add: randomIntInclusive_def js_floor_def js_ceil_def Let_def del: floor_of_int ceiling_of_int)
qed

lemma randomIntInclusive_negative_range:
  assumes "1 \<le> a" and "0 \<le> r" and "r < 1"
  shows "1 - real_of_int a \<le> randomIntInclusive r (real_of_int a) (- real_of_int a) \<and>
         randomIntInclusive r (real_of_int a) (- real_of_int a) \<le> real_of_int a \<and>
         (randomIntInclusive r (real_of_int a) (- real_of_int a) = real_of_int a \<longleftrightarrow> r = 0)"
proof -
  let ?x = "real_of_int a - r * (2 * real_of_int a - 1)"
  have pos: "0 < 2 * real_of_int a - 1" using assms(1) by simp
  have "0 \<le> r * (2 * real_of_int a - 1)" using assms(2) pos by simp
  then have hi: "?x \<le> real_of_int a" by simp
  have "r * (2 * real_of_int a - 1) < 1 * (2 * real_of_int a - 1)"
    using assms(3) pos by (simp only: mult_less_cancel_right_pos)
  then have lo: "real_of_int (1 - a) \<le> ?x" by simp
  from lo have 1: "1 - a \<le> \<lfloor>?x\<rfloor>" by (simp only: le_floor_iff)
  have "\<lfloor>?x\<rfloor> \<le> \<lfloor>real_of_int a\<rfloor>" using hi by (rule floor_mono)
  then have 2: "\<lfloor>?x\<rfloor> \<le> a" by simp
  have "\<lfloor>?x\<rfloor> = a \<longleftrightarrow> real_of_int a \<le> ?x \<and> ?x < real_of_int a + 1"
    by (rule floor_eq_iff)
  also have "\<dots> \<longleftrightarrow> r * (2 * real_of_int a - 1) \<le> 0"
    using hi by auto
  also have "\<dots> \<longleftrightarrow> r = 0"
    using pos assms(2) by (auto simp: mult_le_0_iff)
  finally have 3: "\<lfloor>?x\<rfloor> = a \<longleftrightarrow> r = 0" .
  from 1 have "real_of_int (1 - a) \<le> real_of_int \<lfloor>?x\<rfloor>" by (simp only: of_int_le_iff)
  moreover from 2 have "real_of_int \<lfloor>?x\<rfloor> \<le> real_of_int a" by (simp only: of_int_le_iff)
  ultimately show ?thesis
    using 3 by (simp only: randomIntInclusive_negative of_int_eq_iff of_int_diff of_int_1)
qed

lemma length_add_at: "length (add_at store px k d) = length px"
  by (simp add: add_at_def)

lemma add_at_nth:
  "j < length px \<Longrightarrow>
   add_at store px k d ! j = (if j = k then store (px ! j + d) else px ! j)"
  by (simp add: add_at_def nth_list_update)

lemma granulateSimple_loop_stop:
  "\<not> real i < total' \<Longrightarrow> granulateSimple_loop store A alpha total' i g px = (g, px)"
  by (subst granulateSimple_loop.simps) simp

lemma granulateSimple_loop_step:
  assumes "real i < total'" and "d = randomIntInclusive (random_fn g (drawn g)) (- A) A"
  shows "granulateSimple_loop store A alpha total' i g px =
           granulateSimple_loop store A alpha total' (i + 4) (g\<lparr>drawn := drawn g + 1\<rparr>)
             (let px3 = add_at store (add_at store (add_at store px i d) (i + 1) d) (i + 2) d
              in if alpha then add_at store px3 (i + 3) d else px3)"
  using assms
  by (subst granulateSimple_loop.simps) (simp add: next_random_def Let_def)

lemma simple_pixel_nth:
  assumes "j < length px"
  shows "(let px3 = add_at store (add_at store (add_at store px i d) (i + 1) d) (i + 2) d
          in if alpha then add_at store px3 (i + 3) d else px3) ! j =
         (if i \<le> j \<and> j < i + (if alpha then 4 else 3) then store (px ! j + d) else px ! j)"
  using assms by (auto simp: Let_def add_at_nth length_add_at)

lemma simple_pixel_length:
  "length (let px3 = add_at store (add_at store (add_at store px i d) (i + 1) d) (i + 2) d
           in if alpha then add_at store px3 (i + 3) d else px3) = length px"
  by (simp add: Let_def length_add_at)

lemma granulateSimple_loop_pixels:
  "length (snd (granulateSimple_loop store A alpha total' i g px)) = length px \<and>
   (\<forall>j. j < i \<and> j < length px \<longrightarrow>
      snd (granulateSimple_loop store A alpha total' i g px) ! j = px ! j) \<and>
   (\<forall>p c. c < 4 \<and> i + 4 * p + c < length px \<longrightarrow>
      snd (granulateSimple_loop store A alpha total' i g px) ! (i + 4 * p + c) =
        (if real (i + 4 * p) < total' \<and> (c < 3 \<or> alpha)
         then store (px ! (i + 4 * p + c) +
                     randomIntInclusive (random_fn g (drawn g + p)) (- A) A)
         else px ! (i + 4 * p + c)))"
proof (induction "nat \<lceil>total'\<rceil> - i" arbitrary: i g px rule: less_induct)
  case less
  show ?case
  proof (cases "real i < total'")
    case False
    then have "\<not> real (i + 4 * p) < total'" for p by simp
    with False show ?thesis by (simp add: granulateSimple_loop_stop)
  next
    case True
    define d where "d = randomIntInclusive (random_fn g (drawn g)) (- A) A"
    define px1 where "px1 =
      (let px3 = add_at store (add_at store (add_at store px i d) (i + 1) d) (i + 2) d
       in if alpha then add_at store px3 (i + 3) d else px3)"
    define g1 where "g1 = g\<lparr>drawn := drawn g + 1\<rparr>"
    define res where "res = snd (granulateSimple_loop store A alpha total' (i + 4) g1 px1)"
    have step: "snd (granulateSimple_loop store A alpha total' i g px) = res"
      unfolding res_def g1_def px1_def
      by (simp only: granulateSimple_loop_step [OF True d_def])
    have g1: "random_fn g1 = random_fn g" "drawn g1 = drawn g + 1"
      by (simp_all add: g1_def)
    have "i < nat \<lceil>total'\<rceil>"
      using True by (simp add: less_ceiling_iff zless_nat_eq_int_zless)
    then have dec: "nat \<lceil>total'\<rceil> - (i + 4) < nat \<lceil>total'\<rceil> - i" by simp
    note IH = less.hyps [OF dec, of g1 px1, folded res_def]
    have len: "length px1 = length px"
      unfolding px1_def by (rule simple_pixel_length)
    have px1: "px1 ! j =
        (if i \<le> j \<and> j < i + (if alpha then 4 else 3) then store (px ! j + d) else px ! j)"
      if "j < length px" for j
      unfolding px1_def using that by (rule simple_pixel_nth)
    have L: "length res = length px" using IH len by simp
    have F: "res ! j = px1 ! j" if "j < i + 4" "j < length px" for j
      using IH that len by simp
    have P: "res ! (i + 4 + 4 * q + c) =
        (if real (i + 4 + 4 * q) < total' \<and> (c < 3 \<or> alpha)
         then store (px1 ! (i + 4 + 4 * q + c) +
                     randomIntInclusive (random_fn g (drawn g + 1 + q)) (- A) A)
         else px1 ! (i + 4 + 4 * q + c))"
      if "c < 4" "i + 4 + 4 * q + c < length px" for q c
      using IH that len g1 by auto
    have frame: "res ! j = px ! j" if "j < i" "j < length px" for j
      using F [of j] that px1 [of j] by simp
    have pixel: "res ! (i + 4 * p + c) =
        (if real (i + 4 * p) < total' \<and> (c < 3 \<or> alpha)
         then store (px ! (i + 4 * p + c) +
                     randomIntInclusive (random_fn g (drawn g + p)) (- A) A)
         else px ! (i + 4 * p + c))"
      if c: "c < 4" and b: "i + 4 * p + c < length px" for p c
    proof (cases p)
      case 0
      have "res ! (i + c) = px1 ! (i + c)" using F [of "i + c"] c b 0 by simp
      also have "\<dots> = (if i \<le> i + c \<and> i + c < i + (if alpha then 4 else 3)
                         then store (px ! (i + c) + d) else px ! (i + c))"
        using b 0 by (intro px1) simp
      finally show ?thesis using True 0 c by (auto simp: d_def)
    next
      case (Suc q)
      have idx: "i + 4 * p + c = i + 4 + 4 * q + c" using Suc by simp
      have same: "px1 ! (i + 4 + 4 * q + c) = px ! (i + 4 + 4 * q + c)"
        using b idx px1 [of "i + 4 + 4 * q + c"] by simp
      have dr: "drawn g + 1 + q = drawn g + p" using Suc by simp
      have re: "real (i + 4 + 4 * q) = real (i + 4 * p)" using Suc by simp
      have "res ! (i + 4 * p + c) = res ! (i + 4 + 4 * q + c)" by (simp only: idx)
      also have "\<dots> =
        (if real (i + 4 + 4 * q) < total' \<and> (c < 3 \<or> alpha)
         then store (px1 ! (i + 4 + 4 * q + c) +
                     randomIntInclusive (random_fn g (drawn g + 1 + q)) (- A) A)
         else px1 ! (i + 4 + 4 * q + c))"
        by (rule P) (use c b idx in simp_all)
      also have "\<dots> =
        (if real (i + 4 * p) < total' \<and> (c < 3 \<or> alpha)
         then store (px ! (i + 4 * p + c) +
                     randomIntInclusive (random_fn g (drawn g + p)) (- A) A)
         else px ! (i + 4 * p + c))"
        using same by (simp only: dr re idx [symmetric])
      finally show ?thesis .
    qed
    show ?thesis
      unfolding step using L frame pixel by blast
  qed
qed

lemma granulateChannels_loop_stop:
  "\<not> real i < total' \<Longrightarrow> granulateChannels_loop store A alpha total' i g px = (g, px)"
  by (subst granulateChannels_loop.simps) simp

lemma granulateChannels_loop_step:
  assumes "real i < total'"
    and "e = (\<lambda>c. randomIntInclusive (random_fn g (drawn g + c)) (- A) A)"
  shows "granulateChannels_loop store A alpha total' i g px =
           granulateChannels_loop store A alpha total' (i + 4)
             (g\<lparr>drawn := drawn g + (if alpha then 4 else 3)\<rparr>)
             (let px3 = add_at store (add_at store (add_at store px i (e 0)) (i + 1) (e 1))
                          (i + 2) (e 2)
              in if alpha then add_at store px3 (i + 3) (e 3) else px3)"
  using assms
  by (subst granulateChannels_loop.simps) (simp add: next_random_def Let_def eval_nat_numeral)

lemma channels_pixel_nth:
  assumes "j < length px"
  shows "(let px3 = add_at store (add_at store (add_at store px i (e 0)) (i + 1) (e 1))
                      (i + 2) (e 2)
          in if alpha then add_at store px3 (i + 3) (e (3::nat)) else px3) ! j =
         (if i \<le> j \<and> j < i + (if alpha then 4 else 3) then store (px ! j + e (j - i))
          else px ! j)"
proof -
  have "j = i \<or> j = i + 1 \<or> j = i + 2 \<or> j = i + 3 \<or> j < i \<or> i + 3 < j" by arith
  then show ?thesis
    using assms by (auto simp: Let_def add_at_nth length_add_at numeral_3_eq_3)
qed

lemma channels_pixel_length:
  "length (let px3 = add_at store (add_at store (add_at store px i d0) (i + 1) d1) (i + 2) d2
           in if alpha then add_at store px3 (i + 3) d3 else px3) = length px"
  by (simp add: Let_def length_add_at)

lemma granulateChannels_loop_pixels:
  "length (snd (granulateChannels_loop store A alpha total' i g px)) = length px \<and>
   (\<forall>j. j < i \<and> j < length px \<longrightarrow>
      snd (granulateChannels_loop store A alpha total' i g px) ! j = px ! j) \<and>
   (\<forall>p c. c < 4 \<and> i + 4 * p + c < length px \<longrightarrow>
      snd (granulateChannels_loop store A alpha total' i g px) ! (i + 4 * p + c) =
        (if real (i + 4 * p) < total' \<and> (c < 3 \<or> alpha)
         then store (px ! (i + 4 * p + c) +
                     randomIntInclusive
                       (random_fn g (drawn g + (if alpha then 4 else 3) * p + c)) (- A) A)
         else px ! (i + 4 * p + c)))"
proof (induction "nat \<lceil>total'\<rceil> - i" arbitrary: i g px rule: less_induct)
  case less
  show ?case
  proof (cases "real i < total'")
    case False
    then have "\<not> real (i + 4 * p) < total'" for p by simp
    with False show ?thesis by (simp add: granulateChannels_loop_stop)
  next
    case True
    define n :: nat where "n = (if alpha then 4 else 3)"
    define e where "e = (\<lambda>c. randomIntInclusive (random_fn g (drawn g + c)) (- A) A)"
    define px1 where "px1 =
      (let px3 = add_at store (add_at store (add_at store px i (e 0)) (i + 1) (e 1))
                   (i + 2) (e 2)
       in if alpha then add_at store px3 (i + 3) (e 3) else px3)"
    define g1 where "g1 = g\<lparr>drawn := drawn g + (if alpha then 4 else 3)\<rparr>"
    define res where "res = snd (granulateChannels_loop store A alpha total' (i + 4) g1 px1)"
    have step: "snd (granulateChannels_loop store A alpha total' i g px) = res"
      unfolding res_def g1_def px1_def
      by (simp only: granulateChannels_loop_step [OF True e_def])
    have g1: "random_fn g1 = random_fn g" "drawn g1 = drawn g + n"
      by (simp_all add: g1_def n_def)
    have "i < nat \<lceil>total'\<rceil>"
      using True by (simp add: less_ceiling_iff zless_nat_eq_int_zless)
    then have dec: "nat \<lceil>total'\<rceil> - (i + 4) < nat \<lceil>total'\<rceil> - i" by simp
    note IH = less.hyps [OF dec, of g1 px1, folded res_def n_def]
    have len: "length px1 = length px"
      unfolding px1_def by (rule channels_pixel_length)
    have px1: "px1 ! j =
        (if i \<le> j \<and> j < i + n then store (px ! j + e (j - i)) else px ! j)"
      if "j < length px" for j
      unfolding px1_def n_def using that by (rule channels_pixel_nth)
    have L: "length res = length px" using IH len by simp
    have F: "res ! j = px1 ! j" if "j < i + 4" "j < length px" for j
      using IH that len by simp
    have P: "res ! (i + 4 + 4 * q + c) =
        (if real (i + 4 + 4 * q) < total' \<and> (c < 3 \<or> alpha)
         then store (px1 ! (i + 4 + 4 * q + c) +
                     randomIntInclusive (random_fn g (drawn g + n + n * q + c)) (- A) A)
         else px1 ! (i + 4 + 4 * q + c))"
      if "c < 4" "i + 4 + 4 * q + c < length px" for q c
      using IH that len g1 by auto
    have frame: "res ! j = px ! j" if "j < i" "j < length px" for j
      using F [of j] that px1 [of j] by simp
    have pixel: "res ! (i + 4 * p + c) =
        (if real (i + 4 * p) < total' \<and> (c < 3 \<or> alpha)
         then store (px ! (i + 4 * p + c) +
                     randomIntInclusive (random_fn g (drawn g + n * p + c)) (- A) A)
         else px ! (i + 4 * p + c))"
      if c: "c < 4" and b: "i + 4 * p + c < length px" for p c
    proof (cases p)
      case 0
      have "res ! (i + c) = px1 ! (i + c)" using F [of "i + c"] c b 0 by simp
      also have "\<dots> = (if i \<le> i + c \<and> i + c < i + n
                         then store (px ! (i + c) + e (i + c - i)) else px ! (i + c))"
        using b 0 by (intro px1) simp
      finally show ?thesis using True 0 c by (auto simp: e_def n_def)
    next
      case (Suc q)
      have idx: "i + 4 * p + c = i + 4 + 4 * q + c" using Suc by simp
      have same: "px1 ! (i + 4 + 4 * q + c) = px ! (i + 4 + 4 * q + c)"
        using b idx px1 [of "i + 4 + 4 * q + c"] by (simp add: n_def)
      have dr: "drawn g + n + n * q + c = drawn g + n * p + c" using Suc by simp
      have re: "real (i + 4 + 4 * q) = real (i + 4 * p)" using Suc by simp
      have "res ! (i + 4 * p + c) = res ! (i + 4 + 4 * q + c)" by (simp only: idx)
      also have "\<dots> =
        (if real (i + 4 + 4 * q) < total' \<and> (c < 3 \<or> alpha)
         then store (px1 ! (i + 4 + 4 * q + c) +
                     randomIntInclusive (random_fn g (drawn g + n + n * q + c)) (- A) A)
         else px1 ! (i + 4 + 4 * q + c))"
        by (rule P) (use c b idx in simp_all)
      also have "\<dots> =
        (if real (i + 4 * p) < total' \<and> (c < 3 \<or> alpha)
         then store (px ! (i + 4 * p + c) +
                     randomIntInclusive (random_fn g (drawn g + n * p + c)) (- A) A)
         else px ! (i + 4 * p + c))"
        using same by (simp only: dr re idx [symmetric])
      finally show ?thesis .
    qed
    show ?thesis
      unfolding step n_def [symmetric] using L frame pixel by blast
  qed
qed

lemma granulateSimple_target:
  assumes "granulateSimple store canvas g amount alpha pg = (g', canvas', pg')"
  shows "target_pixels canvas' pg' =
           snd (granulateSimple_loop store (js_round amount) (alpha = Some True)
                  (total_samples canvas pg) 0 g (target_pixels canvas pg))"
proof -
  have a: "(case alpha of Some b \<Rightarrow> b | None \<Rightarrow> False) = (alpha = Some True)"
    by (cases alpha) auto
  show ?thesis
    using assms
    by (auto simp: granulateSimple_def Let_def a target_pixels_def
        split: prod.splits option.splits)
qed

lemma granulateChannels_target:
  assumes "granulateChannels store canvas g amount alpha pg = (g', canvas', pg')"
  shows "target_pixels canvas' pg' =
           snd (granulateChannels_loop store (js_round amount) (alpha = Some True)
                  (total_samples canvas pg) 0 g (target_pixels canvas pg))"
proof -
  have a: "(case alpha of Some b \<Rightarrow> b | None \<Rightarrow> False) = (alpha = Some True)"
    by (cases alpha) auto
  show ?thesis
    using assms
    by (auto simp: granulateChannels_def Let_def a target_pixels_def
        split: prod.splits option.splits)
qed

lemma granulateSimple_pixel:
  assumes "granulateSimple store canvas g amount alpha pg = (g', canvas', pg')"
    and "c < 4" and "4 * p + c < length (target_pixels canvas pg)"
  shows "target_pixels canvas' pg' ! (4 * p + c) =
           (if real (4 * p) < total_samples canvas pg \<and> (c < 3 \<or> alpha = Some True)
            then store (target_pixels canvas pg ! (4 * p + c) +
                        randomIntInclusive (random_fn g (drawn g + p))
                          (- js_round amount) (js_round amount))
            else target_pixels canvas pg ! (4 * p + c))"
  using granulateSimple_loop_pixels
    [of store "js_round amount" "alpha = Some True" "total_samples canvas pg" 0 g
        "target_pixels canvas pg"] assms(2,3)
  unfolding granulateSimple_target [OF assms(1)] by auto

lemma granulateChannels_pixel:
  assumes "granulateChannels store canvas g amount alpha pg = (g', canvas', pg')"
    and "c < 4" and "4 * p + c < length (target_pixels canvas pg)"
  shows "target_pixels canvas' pg' ! (4 * p + c) =
           (if real (4 * p) < total_samples canvas pg \<and> (c < 3 \<or> alpha = Some True)
            then store (target_pixels canvas pg ! (4 * p + c) +
                        randomIntInclusive
                          (random_fn g (drawn g + (if alpha = Some True then 4 else 3) * p + c))
                          (- js_round amount) (js_round amount))
            else target_pixels canvas pg ! (4 * p + c))"
  using granulateChannels_loop_pixels
    [of store "js_round amount" "alpha = Some True" "total_samples canvas pg" 0 g
        "target_pixels canvas pg"] assms(2,3)
  unfolding granulateChannels_target [OF assms(1)] by auto

lemma grain_amount_range:
  assumes "0 \<le> amount" and "0 \<le> r" and "r < 1"
  shows "- js_round amount \<le> randomIntInclusive r (- js_round amount) (js_round amount) \<and>
         randomIntInclusive r (- js_round amount) (js_round amount) \<le> js_round amount \<and>
         randomIntInclusive r (- js_round amount) (js_round amount) \<in> \<int>"
proof -
  have "0 \<le> round amount" using assms(1) by (simp add: round_def)
  from randomIntInclusive_range [OF this assms(2,3)] show ?thesis
    by (simp add: js_round_def randomIntInclusive_int)
qed

lemma negative_one_draw:
  assumes "0 \<le> r" and "r < 1"
  shows "randomIntInclusive r (- js_round (- 1)) (js_round (- 1)) \<noteq> - 1"
proof -
  have "js_round (- 1) = - real_of_int 1" by (simp add: js_round_def round_def)
  moreover have "1 - real_of_int 1 \<le> randomIntInclusive r (real_of_int 1) (- real_of_int 1)"
    using randomIntInclusive_negative_range [of 1 r] assms by blast
  ultimately show ?thesis by simp
qed

lemma tinkerPixels_loop_visited:
  "tinkerPixels_loop callback total' i w =
     foldl (\<lambda>w k. callback k total' w) w (visited total' i)"
proof (induction "nat \<lceil>total'\<rceil> - i" arbitrary: i w rule: less_induct)
  case less
  show ?case
  proof (cases "real i < total'")
    case False
    then show ?thesis
      by (subst tinkerPixels_loop.simps, subst visited.simps) simp
  next
    case True
    then have "i < nat \<lceil>total'\<rceil>"
      by (simp add: less_ceiling_iff zless_nat_eq_int_zless)
    then have dec: "nat \<lceil>total'\<rceil> - (i + 4) < nat \<lceil>total'\<rceil> - i" by simp
    show ?thesis
      using True less.hyps [OF dec, of "callback i total' w"]
      by (subst tinkerPixels_loop.simps, subst visited.simps) simp
  qed
qed

lemma js_round_of_int: "js_round (real_of_int k) = real_of_int k"
  by (simp add: js_round_def)

lemma main_canvas_pass:
  assumes "real (length (pixels canvas)) = total_samples canvas None"
    and "4 * p + 3 < length (target_pixels canvas None)"
  shows "real (4 * p) < total_samples canvas None"
proof -
  have "4 * p < length (pixels canvas)"
    using assms(2) by (simp add: target_pixels_def)
  then have "real (4 * p) < real (length (pixels canvas))"
    by (simp only: of_nat_less_iff)
  then show ?thesis by (simp only: assms(1))
qed

section \<open>The pixels the pass visits\<close>

text \<open>
  The pixels of the pass are the pixels \<open>p\<close> whose index \<open>4 p\<close> is below the loop bound.
  On them, for an amount of at least 0 and a random function with values in [0,1):
  \<open>granulateSimple\<close> adds the one integer \<open>randomIntInclusive(-A, A)\<close> of the pixel's
  single draw, with \<open>A\<close> the rounded amount (the amount itself when it is a whole
  number), to the R, G and B samples (and to A when \<open>alpha\<close> is true), while
  \<open>granulateChannels\<close> adds to each of these samples the integer of a draw of its own;
  the array stores what its conversion \<open>store\<close> makes of each sum. Every such delta is an
  integer between \<open>-A\<close> and \<open>A\<close>, and the draw is uniform: the delta is \<open>k\<close> exactly
  when the random value lies in the \<open>k + A\<close>-th of the \<open>2 A + 1\<close> equal parts of [0,1).
  On the main canvas, whose array has the length of the loop bound, the pixels of the
  pass are all its pixels (\<open>main_canvas_pass\<close>); on an offscreen buffer they need not be.
\<close>

lemma granulate_visited_delta:
  assumes "0 \<le> amount"
    and "\<forall>n. 0 \<le> random_fn g n \<and> random_fn g n < 1"
    and "granulateSimple store canvas g amount alpha pg = (gS, canvasS, pgS)"
    and "granulateChannels store canvas g amount alpha pg = (gC, canvasC, pgC)"
    and "real (4 * p) < total_samples canvas pg"
    and "4 * p + 3 < length (target_pixels canvas pg)"
  shows "(\<forall>c. c < 4 \<and> (c < 3 \<or> alpha = Some True) \<longrightarrow>
            target_pixels canvasS pgS ! (4 * p + c) =
              store (target_pixels canvas pg ! (4 * p + c) +
                     randomIntInclusive (random_fn g (drawn g + p))
                       (- js_round amount) (js_round amount))) \<and>
         (\<forall>c. c < 4 \<and> (c < 3 \<or> alpha = Some True) \<longrightarrow>
            target_pixels canvasC pgC ! (4 * p + c) =
              store (target_pixels canvas pg ! (4 * p + c) +
                     randomIntInclusive
                       (random_fn g (drawn g + (if alpha = Some True then 4 else 3) * p + c))
                       (- js_round amount) (js_round amount))) \<and>
         (\<forall>n. - js_round amount \<le>
                randomIntInclusive (random_fn g n) (- js_round amount) (js_round amount) \<and>
              randomIntInclusive (random_fn g n) (- js_round amount) (js_round amount) \<le>
                js_round amount \<and>
              randomIntInclusive (random_fn g n) (- js_round amount) (js_round amount) \<in> \<int>) \<and>
         (\<forall>r k. randomIntInclusive r (- js_round amount) (js_round amount) = real_of_int k \<longleftrightarrow>
                real_of_int (k + round amount) / real_of_int (2 * round amount + 1) \<le> r \<and>
                r < real_of_int (k + round amount + 1) / real_of_int (2 * round amount + 1)) \<and>
         (\<forall>k. amount = real_of_int k \<longrightarrow> js_round amount = amount)"
proof (intro conjI allI impI)
  fix c :: nat
  assume c: "c < 4 \<and> (c < 3 \<or> alpha = Some True)"
  then have b: "4 * p + c < length (target_pixels canvas pg)" using assms(6) by simp
  show "target_pixels canvasS pgS ! (4 * p + c) =
              store (target_pixels canvas pg ! (4 * p + c) +
                     randomIntInclusive (random_fn g (drawn g + p))
                       (- js_round amount) (js_round amount))"
    using granulateSimple_pixel [OF assms(3) _ b] c assms(5) by simp
  show "target_pixels canvasC pgC ! (4 * p + c) =
              store (target_pixels canvas pg ! (4 * p + c) +
                     randomIntInclusive
                       (random_fn g (drawn g + (if alpha = Some True then 4 else 3) * p + c))
                       (- js_round amount) (js_round amount))"
    using granulateChannels_pixel [OF assms(4) _ b] c assms(5) by simp
next
  fix n
  have r: "0 \<le> random_fn g n" "random_fn g n < 1" using assms(2) by simp_all
  from grain_amount_range [OF assms(1) r]
  show "- js_round amount \<le>
                randomIntInclusive (random_fn g n) (- js_round amount) (js_round amount)"
    and "randomIntInclusive (random_fn g n) (- js_round amount) (js_round amount) \<le>
                js_round amount"
    and "randomIntInclusive (random_fn g n) (- js_round amount) (js_round amount) \<in> \<int>"
    by simp_all
next
  fix r k
  have "0 \<le> round amount" using assms(1) by (simp add: round_def)
  from randomIntInclusive_uniform [OF this, of r k]
  show "randomIntInclusive r (- js_round amount) (js_round amount) = real_of_int k \<longleftrightarrow>
                real_of_int (k + round amount) / real_of_int (2 * round amount + 1) \<le> r \<and>
                r < real_of_int (k + round amount + 1) / real_of_int (2 * round amount + 1)"
    by (simp only: js_round_def)
next
  fix k
  assume "amount = real_of_int k"
  then show "js_round amount = amount"
    by (simp only: js_round_of_int)
qed

text \<open>
  With \<open>alpha\<close> false or omitted, no call of \<open>granulateSimple\<close> or
  \<open>granulateChannels\<close> changes the sample at \<open>4 p + 3\<close> of any pixel of the array; with
  \<open>alpha\<close> true, the sample at \<open>4 p + 3\<close> of every pixel of the pass gets the pixel's
  grain delta (\<open>granulateSimple\<close>) or the delta of its fourth draw
  (\<open>granulateChannels\<close>).
\<close>

lemma granulate_visited_alpha:
  assumes "granulateSimple store canvas g amount alpha pg = (gS, canvasS, pgS)"
    and "granulateChannels store canvas g amount alpha pg = (gC, canvasC, pgC)"
  shows "(alpha \<noteq> Some True \<longrightarrow>
            (\<forall>p. 4 * p + 3 < length (target_pixels canvas pg) \<longrightarrow>
               target_pixels canvasS pgS ! (4 * p + 3) = target_pixels canvas pg ! (4 * p + 3) \<and>
               target_pixels canvasC pgC ! (4 * p + 3) = target_pixels canvas pg ! (4 * p + 3))) \<and>
         (alpha = Some True \<longrightarrow>
            (\<forall>p. real (4 * p) < total_samples canvas pg \<and>
                 4 * p + 3 < length (target_pixels canvas pg) \<longrightarrow>
               target_pixels canvasS pgS ! (4 * p + 3) =
                 store (target_pixels canvas pg ! (4 * p + 3) +
                        randomIntInclusive (random_fn g (drawn g + p))
                          (- js_round amount) (js_round amount)) \<and>
               target_pixels canvasC pgC ! (4 * p + 3) =
                 store (target_pixels canvas pg ! (4 * p + 3) +
                        randomIntInclusive (random_fn g (drawn g + 4 * p + 3))
                          (- js_round amount) (js_round amount))))"
  using granulateSimple_pixel [OF assms(1), where c = 3]
    granulateChannels_pixel [OF assms(2), where c = 3]
  by simp


section \<open>The claims\<close>

text \<open>
  C1. Tiling completeness of textureOverlay: for every destination width and height,
  every tile width and height above 0 and every anchor with both coordinates at most 0,
  the sweep ends and every point of the destination (every \<open>(cx, cy)\<close> with
  \<open>0 \<le> cx < W\<close> and \<open>0 \<le> cy < H\<close>, the pixel cells among them) lies in the footprint
  of a tile it draws. A 10 by 10 destination with a 4 by 4 tile, no reflection and the
  anchor (0,0) gets exactly the nine \<open>image\<close> calls at (0,0), (4,0), (8,0), (0,4),
  (4,4), (8,4), (0,8), (4,8), (8,8), between the two \<open>blendMode\<close> calls.
\<close>

theorem textureOverlay_tiling_complete:
  "(0 < tW \<and> 0 < tH \<and> ax \<le> 0 \<and> ay \<le> 0 \<and> 0 \<le> cx \<and> cx < W \<and> 0 \<le> cy \<and> cy < H \<longrightarrow>
      (\<exists>cs p. sweep W H tW tH reflect ax ay = Some cs \<and>
               p \<in> set (render (1, 1) [] cs) \<and> covers p (cx, cy))) \<and>
   sweep 10 10 4 4 False 0 0 =
     Some [Image 0 0 4 4, Image 4 0 4 4, Image 8 0 4 4,
           Image 0 4 4 4, Image 4 4 4 4, Image 8 4 4 4,
           Image 0 8 4 4, Image 4 8 4 4, Image 8 8 4 4] \<and>
   textureOverlay \<lparr>width = 10, height = 10, pixelDensity = d, pixels = px\<rparr> (new_P5Grain rnd)
       (P5Image 4 4) (ConfigObject no_properties) (PgValue JUndefined) =
     Returns (new_P5Grain rnd)
       [BlendMode MULTIPLY,
        Image 0 0 4 4, Image 4 0 4 4, Image 8 0 4 4,
        Image 0 4 4 4, Image 4 4 4 4, Image 8 4 4 4,
        Image 0 8 4 4, Image 4 8 4 4, Image 8 8 4 4,
        BlendMode BLEND]"
proof (intro conjI impI)
  assume "0 < tW \<and> 0 < tH \<and> ax \<le> 0 \<and> ay \<le> 0 \<and> 0 \<le> cx \<and> cx < W \<and> 0 \<le> cy \<and> cy < H"
  then show "\<exists>cs p. sweep W H tW tH reflect ax ay = Some cs \<and>
               p \<in> set (render (1, 1) [] cs) \<and> covers p (cx, cy)"
    by (intro sweep_covers) simp_all
qed (rule example_sweep, rule example_overlay)

text \<open>C1 at a 10 by 10 destination, a 4 by 4 tile, the anchor (-1,-2) and the point (9,9).\<close>

theorem textureOverlay_tiling_complete_witness:
  "\<exists>cs p. sweep 10 10 4 4 True (- 1) (- 2) = Some cs \<and>
          p \<in> set (render (1, 1) [] cs) \<and> covers p (9, 9)"
  using textureOverlay_tiling_complete
    [where tW = 4 and tH = 4 and ax = "- 1" and ay = "- 2" and cx = 9 and cy = 9
       and W = 10 and H = 10 and reflect = True]
  by simp

text \<open>
  C3. Reflect orientation law: with \<open>reflect\<close> true, the flag pair decides the
  orientation of a tile: (first, first) is drawn as it is, (first, second) mirrored
  horizontally, (second, first) mirrored vertically, (second, second) mirrored on both
  axes. The sweep draws the tile of row \<open>j\<close> and column \<open>k\<close> (counted from 0) with the
  flags \<open>(even j, even k)\<close>, whatever the number of tiles in a row or in a column, so of
  two tiles next to each other in a row exactly one is mirrored horizontally, and of
  two tiles one below the other exactly one is mirrored vertically.
\<close>

theorem textureOverlay_reflect_orientation:
  assumes "0 < tW" and "0 < tH" and "ax < W"
  shows "render (1, 1) [] (draw_tile True rowFirst colFirst x y tW tH) =
           [\<lparr>p_left = x, p_top = y, p_right = x + tW, p_bottom = y + tH,
             p_mirrorX = (\<not> colFirst), p_mirrorY = (\<not> rowFirst)\<rparr>] \<and>
         (\<exists>cs. sweep W H tW tH True ax ay = Some cs \<and>
            cs = concat (map (\<lambda>j. concat (map (\<lambda>k. draw_tile True (even j) (even k)
                                                     (ax + real k * tW) (ay + real j * tH) tW tH)
                                           [0..<tiles_along ax W tW]))
                             [0..<tiles_along ay H tH]) \<and>
            render (1, 1) [] cs =
              concat (map (\<lambda>j. map (\<lambda>k. \<lparr>p_left = ax + real k * tW, p_top = ay + real j * tH,
                                            p_right = ax + real k * tW + tW,
                                            p_bottom = ay + real j * tH + tH,
                                            p_mirrorX = odd k, p_mirrorY = odd j\<rparr>)
                                 [0..<tiles_along ax W tW])
                          [0..<tiles_along ay H tH]) \<and>
            (\<forall>p q. p \<in> set (render (1, 1) [] cs) \<and> q \<in> set (render (1, 1) [] cs) \<and>
                   p_top q = p_top p \<and> p_left q = p_right p \<longrightarrow>
                   p_mirrorX q = (\<not> p_mirrorX p) \<and> p_mirrorY q = p_mirrorY p) \<and>
            (\<forall>p q. p \<in> set (render (1, 1) [] cs) \<and> q \<in> set (render (1, 1) [] cs) \<and>
                   p_left q = p_left p \<and> p_top q = p_bottom p \<longrightarrow>
                   p_mirrorY q = (\<not> p_mirrorY p) \<and> p_mirrorX q = p_mirrorX p))"
proof
  show "render (1, 1) [] (draw_tile True rowFirst colFirst x y tW tH) =
           [\<lparr>p_left = x, p_top = y, p_right = x + tW, p_bottom = y + tH,
             p_mirrorX = (\<not> colFirst), p_mirrorY = (\<not> rowFirst)\<rparr>]"
    using assms(1,2) render_draw_tile [of tW tH "[]" True rowFirst colFirst x y "[]"]
    by (simp add: placed_tile_def)
next
  let ?f = "\<lambda>j k. placed_tile True (even j) (even k) (ax + real k * tW) (ay + real j * tH) tW tH"
  let ?grid = "concat (map (\<lambda>j. map (\<lambda>k. ?f j k) [0..<tiles_along ax W tW])
                          [0..<tiles_along ay H tH])"
  obtain cs where cs: "sweep W H tW tH True ax ay = Some cs" "render (1, 1) [] cs = ?grid"
    and calls: "cs = concat (map (\<lambda>j. concat (map (\<lambda>k. draw_tile True (even j) (even k)
                                                     (ax + real k * tW) (ay + real j * tH) tW tH)
                                           [0..<tiles_along ax W tW]))
                             [0..<tiles_along ay H tH])"
    using render_sweep [OF assms] by blast
  have right: "p_mirrorX q = (\<not> p_mirrorX p) \<and> p_mirrorY q = p_mirrorY p"
    if hp: "p \<in> set ?grid" and hq: "q \<in> set ?grid"
      and h1: "p_top q = p_top p" and h2: "p_left q = p_right p" for p q
  proof -
    obtain j k where p: "p = ?f j k" using hp by auto
    obtain j' k' where q: "q = ?f j' k'" using hq by auto
    show ?thesis by (rule grid_right_neighbour [OF assms(1,2) p q h1 h2])
  qed
  have lower: "p_mirrorY q = (\<not> p_mirrorY p) \<and> p_mirrorX q = p_mirrorX p"
    if hp: "p \<in> set ?grid" and hq: "q \<in> set ?grid"
      and h1: "p_left q = p_left p" and h2: "p_top q = p_bottom p" for p q
  proof -
    obtain j k where p: "p = ?f j k" using hp by auto
    obtain j' k' where q: "q = ?f j' k'" using hq by auto
    show ?thesis by (rule grid_lower_neighbour [OF assms(1,2) p q h1 h2])
  qed
  have form: "?grid =
      concat (map (\<lambda>j. map (\<lambda>k. \<lparr>p_left = ax + real k * tW, p_top = ay + real j * tH,
                                            p_right = ax + real k * tW + tW,
                                            p_bottom = ay + real j * tH + tH,
                                            p_mirrorX = odd k, p_mirrorY = odd j\<rparr>)
                                 [0..<tiles_along ax W tW])
                          [0..<tiles_along ay H tH])"
    by (simp add: placed_tile_def)
  show "\<exists>cs. sweep W H tW tH True ax ay = Some cs \<and>
            cs = concat (map (\<lambda>j. concat (map (\<lambda>k. draw_tile True (even j) (even k)
                                                     (ax + real k * tW) (ay + real j * tH) tW tH)
                                           [0..<tiles_along ax W tW]))
                             [0..<tiles_along ay H tH]) \<and>
            render (1, 1) [] cs =
              concat (map (\<lambda>j. map (\<lambda>k. \<lparr>p_left = ax + real k * tW, p_top = ay + real j * tH,
                                            p_right = ax + real k * tW + tW,
                                            p_bottom = ay + real j * tH + tH,
                                            p_mirrorX = odd k, p_mirrorY = odd j\<rparr>)
                                 [0..<tiles_along ax W tW])
                          [0..<tiles_along ay H tH]) \<and>
            (\<forall>p q. p \<in> set (render (1, 1) [] cs) \<and> q \<in> set (render (1, 1) [] cs) \<and>
                   p_top q = p_top p \<and> p_left q = p_right p \<longrightarrow>
                   p_mirrorX q = (\<not> p_mirrorX p) \<and> p_mirrorY q = p_mirrorY p) \<and>
            (\<forall>p q. p \<in> set (render (1, 1) [] cs) \<and> q \<in> set (render (1, 1) [] cs) \<and>
                   p_left q = p_left p \<and> p_top q = p_bottom p \<longrightarrow>
                   p_mirrorY q = (\<not> p_mirrorY p) \<and> p_mirrorX q = p_mirrorX p)"
    apply (rule exI [of _ cs])
    unfolding cs(2)
    using cs(1) calls form right lower by blast
qed


text \<open>C3 at a 10 by 10 destination and a 4 by 4 tile: the first two tiles of the first row.\<close>

theorem textureOverlay_reflect_orientation_witness:
  "\<exists>cs p q. sweep 10 10 4 4 True 0 0 = Some cs \<and>
     p \<in> set (render (1, 1) [] cs) \<and> q \<in> set (render (1, 1) [] cs) \<and>
     p_top q = p_top p \<and> p_left q = p_right p \<and>
     \<not> p_mirrorX p \<and> p_mirrorX q \<and> p_mirrorY q = p_mirrorY p"
proof -
  let ?p = "\<lparr>p_left = 0, p_top = 0, p_right = 4, p_bottom = 4,
             p_mirrorX = False, p_mirrorY = False\<rparr>"
  let ?q = "\<lparr>p_left = 4, p_top = 0, p_right = 8, p_bottom = 4,
             p_mirrorX = True, p_mirrorY = False\<rparr>"
  have three: "[0..<3] = [0, 1, 2]"
    by (simp add: upt_conv_Cons numeral_3_eq_3)
  have "\<exists>cs. sweep 10 10 4 4 True 0 0 = Some cs \<and>
            cs = concat (map (\<lambda>j. concat (map (\<lambda>k. draw_tile True (even j) (even k)
                                                     (0 + real k * 4) (0 + real j * 4) 4 4)
                                           [0..<tiles_along 0 10 4]))
                             [0..<tiles_along 0 10 4]) \<and>
            render (1, 1) [] cs =
              concat (map (\<lambda>j. map (\<lambda>k. \<lparr>p_left = 0 + real k * 4, p_top = 0 + real j * 4,
                                            p_right = 0 + real k * 4 + 4,
                                            p_bottom = 0 + real j * 4 + 4,
                                            p_mirrorX = odd k, p_mirrorY = odd j\<rparr>)
                                 [0..<tiles_along 0 10 4])
                          [0..<tiles_along 0 10 4]) \<and>
            (\<forall>p q. p \<in> set (render (1, 1) [] cs) \<and> q \<in> set (render (1, 1) [] cs) \<and>
                   p_top q = p_top p \<and> p_left q = p_right p \<longrightarrow>
                   p_mirrorX q = (\<not> p_mirrorX p) \<and> p_mirrorY q = p_mirrorY p) \<and>
            (\<forall>p q. p \<in> set (render (1, 1) [] cs) \<and> q \<in> set (render (1, 1) [] cs) \<and>
                   p_left q = p_left p \<and> p_top q = p_bottom p \<longrightarrow>
                   p_mirrorY q = (\<not> p_mirrorY p) \<and> p_mirrorX q = p_mirrorX p)"
    by (rule conjunct2 [OF textureOverlay_reflect_orientation
          [where tW = 4 and tH = 4 and ax = 0 and W = 10 and H = 10 and ay = 0]]) simp_all
  then obtain cs where cs: "sweep 10 10 4 4 True 0 0 = Some cs"
    and grid: "render (1, 1) [] cs =
              concat (map (\<lambda>j. map (\<lambda>k. \<lparr>p_left = 0 + real k * 4, p_top = 0 + real j * 4,
                                            p_right = 0 + real k * 4 + 4,
                                            p_bottom = 0 + real j * 4 + 4,
                                            p_mirrorX = odd k, p_mirrorY = odd j\<rparr>)
                                 [0..<tiles_along 0 10 4])
                          [0..<tiles_along 0 10 4])"
    and adj: "\<forall>p q. p \<in> set (render (1, 1) [] cs) \<and> q \<in> set (render (1, 1) [] cs) \<and>
                   p_top q = p_top p \<and> p_left q = p_right p \<longrightarrow>
                   p_mirrorX q = (\<not> p_mirrorX p) \<and> p_mirrorY q = p_mirrorY p"
    by (elim exE conjE)
  have p: "?p \<in> set (render (1, 1) [] cs)"
    unfolding grid by (simp add: example_tiles three)
  have q: "?q \<in> set (render (1, 1) [] cs)"
    unfolding grid by (simp add: example_tiles three)
  from adj p q have "p_mirrorX ?q = (\<not> p_mirrorX ?p) \<and> p_mirrorY ?q = p_mirrorY ?p"
    by (elim allE [of _ ?p] allE [of _ ?q] impE) simp_all
  with cs p q show ?thesis
    by (intro exI [of _ cs] exI [of _ ?p] exI [of _ ?q]) simp
qed

text \<open>
  C2. Degenerate-dimension guard. As stated the claim does not hold: on a 10 by 10
  canvas, \<open>textureOverlay(img, {width: 0})\<close> with a 4 by 4 image passes
  \<open>#validateArguments\<close> without an error, and the call never returns.
\<close>

theorem textureOverlay_degenerate_counterexample:
  "validateArguments_textureOverlay (new_P5Grain (\<lambda>n. 0)) (P5Image 4 4)
       (ConfigObject (no_properties\<lparr>cfg_width := JNum 0\<rparr>)) (PgValue JUndefined) = None \<and>
   textureOverlay \<lparr>width = 10, height = 10, pixelDensity = 1, pixels = replicate 400 255\<rparr>
       (new_P5Grain (\<lambda>n. 0)) (P5Image 4 4)
       (ConfigObject (no_properties\<lparr>cfg_width := JNum 0\<rparr>)) (PgValue JUndefined) = Diverges"
proof
  show v: "validateArguments_textureOverlay (new_P5Grain (\<lambda>n. 0)) (P5Image 4 4)
       (ConfigObject (no_properties\<lparr>cfg_width := JNum 0\<rparr>)) (PgValue JUndefined) = None"
    by (simp add: validateArguments_textureOverlay_def new_P5Grain_def no_properties_def)
  show "textureOverlay \<lparr>width = 10, height = 10, pixelDensity = 1, pixels = replicate 400 255\<rparr>
       (new_P5Grain (\<lambda>n. 0)) (P5Image 4 4)
       (ConfigObject (no_properties\<lparr>cfg_width := JNum 0\<rparr>)) (PgValue JUndefined) = Diverges"
    by (rule textureOverlay_degenerate_diverges
          [OF v, where tW = 0 and tH = 4 and g' = "new_P5Grain (\<lambda>n. 0)"])
       (simp_all add: no_properties_def overlay_animate_def new_P5Grain_def)
qed

text \<open>
  C2, as the code has it. \<open>#validateArguments\<close> looks at the types of the arguments
  only: its answer does not depend on the numbers given as \<open>config.width\<close> and
  \<open>config.height\<close>, so no error is raised for a tile width or height of 0 or below, and
  the sweep is entered. With such a tile and the anchor inside the destination
  (\<open>ax < W\<close>, \<open>ay < H\<close>) the sweep never ends, and so does a \<open>textureOverlay\<close> call that
  passes validation, resolves such a tile and has its anchor row above the lower edge.
  With a tile width and height above 0 and \<open>ax < W\<close> the sweep ends.
\<close>

theorem textureOverlay_degenerate_tiles:
  "validateArguments_textureOverlay g textureImage
       (ConfigObject (c\<lparr>cfg_width := JNum w, cfg_height := JNum h\<rparr>)) pg =
   validateArguments_textureOverlay g textureImage
       (ConfigObject (c\<lparr>cfg_width := JNum 1, cfg_height := JNum 1\<rparr>)) pg \<and>
   ((tW \<le> 0 \<or> tH \<le> 0) \<and> ax < W \<and> ay < H \<longrightarrow> sweep W H tW tH reflect ax ay = None) \<and>
   (0 < tW \<and> 0 < tH \<and> ax < W \<longrightarrow> (\<exists>cs. sweep W H tW tH reflect ax ay = Some cs)) \<and>
   (validateArguments_textureOverlay g textureImage (ConfigObject c') pg = None \<and>
    tile_size (cfg_width c') (texture_width textureImage) = Some tW' \<and>
    tile_size (cfg_height c') (texture_height textureImage) = Some tH' \<and>
    (tW' \<le> 0 \<or> tH' \<le> 0) \<and>
    (instanceof_Graphics pg \<or> \<not> truthy_pg pg) \<and>
    to_tY (overlay_animate (animate_truthy (cfg_animate c')) (overlay_atFrame (cfg_animate c'))
             (overlay_amount (cfg_animate c') (target_width canvas pg) (target_height canvas pg)) g)
      < target_height canvas pg \<longrightarrow>
    textureOverlay canvas g textureImage (ConfigObject c') pg = Diverges)"
proof (intro conjI impI)
  show "validateArguments_textureOverlay g textureImage
       (ConfigObject (c\<lparr>cfg_width := JNum w, cfg_height := JNum h\<rparr>)) pg =
   validateArguments_textureOverlay g textureImage
       (ConfigObject (c\<lparr>cfg_width := JNum 1, cfg_height := JNum 1\<rparr>)) pg"
    by (rule validate_ignores_values)
next
  assume "(tW \<le> 0 \<or> tH \<le> 0) \<and> ax < W \<and> ay < H"
  then show "sweep W H tW tH reflect ax ay = None"
    by (simp add: sweep_diverges_iff)
next
  assume "0 < tW \<and> 0 < tH \<and> ax < W"
  then show "\<exists>cs. sweep W H tW tH reflect ax ay = Some cs"
    by (simp add: sweep_grid)
next
  assume a: "validateArguments_textureOverlay g textureImage (ConfigObject c') pg = None \<and>
    tile_size (cfg_width c') (texture_width textureImage) = Some tW' \<and>
    tile_size (cfg_height c') (texture_height textureImage) = Some tH' \<and>
    (tW' \<le> 0 \<or> tH' \<le> 0) \<and>
    (instanceof_Graphics pg \<or> \<not> truthy_pg pg) \<and>
    to_tY (overlay_animate (animate_truthy (cfg_animate c')) (overlay_atFrame (cfg_animate c'))
             (overlay_amount (cfg_animate c') (target_width canvas pg) (target_height canvas pg)) g)
      < target_height canvas pg"
  show "textureOverlay canvas g textureImage (ConfigObject c') pg = Diverges"
    by (rule textureOverlay_degenerate_diverges [where tW = tW' and tH = tH'])
       (use a in auto)
qed

text \<open>
  C2 at a 10 by 10 destination: a tile of width 0, a 4 by 4 tile, and the call
  \<open>textureOverlay(img, {height: -2})\<close>.
\<close>

theorem textureOverlay_degenerate_tiles_witness:
  "sweep 10 10 0 4 False 0 0 = None \<and>
   (\<exists>cs. sweep 10 10 4 4 False 0 0 = Some cs) \<and>
   textureOverlay \<lparr>width = 10, height = 10, pixelDensity = 1, pixels = replicate 400 255\<rparr>
       (new_P5Grain (\<lambda>n. 0)) (P5Image 4 4)
       (ConfigObject (no_properties\<lparr>cfg_height := JNum (- 2)\<rparr>)) (PgValue JUndefined) = Diverges"
proof (intro conjI)
  show "sweep 10 10 0 4 False 0 0 = None"
    using textureOverlay_degenerate_tiles
      [where tW = 0 and tH = 4 and ax = 0 and ay = 0 and W = 10 and H = 10 and reflect = False]
    by simp
  show "\<exists>cs. sweep 10 10 4 4 False 0 0 = Some cs"
    using textureOverlay_degenerate_tiles
      [where tW = 4 and tH = 4 and ax = 0 and ay = 0 and W = 10 and H = 10 and reflect = False]
    by simp
  show "textureOverlay \<lparr>width = 10, height = 10, pixelDensity = 1, pixels = replicate 400 255\<rparr>
       (new_P5Grain (\<lambda>n. 0)) (P5Image 4 4)
       (ConfigObject (no_properties\<lparr>cfg_height := JNum (- 2)\<rparr>)) (PgValue JUndefined) = Diverges"
    using textureOverlay_degenerate_tiles
      [where g = "new_P5Grain (\<lambda>n. 0)" and textureImage = "P5Image 4 4"
         and c' = "no_properties\<lparr>cfg_height := JNum (- 2)\<rparr>" and pg = "PgValue JUndefined"
         and tW' = 4 and tH' = "- 2"
         and canvas = "\<lparr>width = 10, height = 10, pixelDensity = 1, pixels = replicate 400 255\<rparr>"]
    by (simp add: validateArguments_textureOverlay_def no_properties_def overlay_animate_def
        new_P5Grain_def)
qed

text \<open>
  C10. \<open>#validateArguments\<close> accepts an \<open>undefined\<close> config, and every call of
  \<open>textureOverlay\<close> without the config argument throws before the state changes and
  before any call is made on the target: the error of \<open>#validateArguments\<close> when
  another argument is rejected, and otherwise the TypeError of reading \<open>config.mode\<close>.
\<close>

theorem textureOverlay_config_required:
  "validateArguments_textureOverlay g (P5Image w h) (ConfigValue JUndefined) (PgValue JUndefined) = None \<and>
   validateArguments_textureOverlay g (P5Image w h) (ConfigValue JUndefined) (PgGraphics b) = None \<and>
   textureOverlay canvas g (P5Image w h) (ConfigValue JUndefined) (PgValue JUndefined) = Throws TypeError g \<and>
   textureOverlay canvas g (P5Image w h) (ConfigValue JUndefined) (PgGraphics b) = Throws TypeError g \<and>
   textureOverlay canvas g textureImage (ConfigValue JUndefined) pg =
     Throws (case validateArguments_textureOverlay g textureImage (ConfigValue JUndefined) pg of
               Some e \<Rightarrow> e | None \<Rightarrow> TypeError) g"
  by (simp add: textureOverlay_undefined_config)
     (simp add: validateArguments_textureOverlay_def)

text \<open>C10 at \<open>textureOverlay(img)\<close> on a 10 by 10 canvas.\<close>

theorem textureOverlay_config_required_witness:
  "textureOverlay \<lparr>width = 10, height = 10, pixelDensity = 1, pixels = replicate 400 255\<rparr>
       (new_P5Grain (\<lambda>n. 0)) (P5Image 4 4) (ConfigValue JUndefined) (PgValue JUndefined) =
     Throws TypeError (new_P5Grain (\<lambda>n. 0))"
  using textureOverlay_config_required
    [where canvas = "\<lparr>width = 10, height = 10, pixelDensity = 1, pixels = replicate 400 255\<rparr>"
       and g = "new_P5Grain (\<lambda>n. 0)" and w = 4 and h = 4]
  by simp

text \<open>
  C4. Animation cadence. In every call of \<open>textureAnimate\<close>, and in every call of
  \<open>textureOverlay\<close> with \<open>config.animate\<close> truthy, whatever the state the earlier
  calls have left: when the frame counter plus 1 stays below the resolved \<open>atFrame\<close>
  (\<open>round(atFrame)\<close> when the property is given and not 0, else 2; a whole number other
  than 0 resolves to itself), the element's style, respectively the anchor pair, is what
  it was before the call and the counter has grown by 1; the style or the anchor differs
  after the call only if the counter plus 1 has reached the resolved \<open>atFrame\<close>, and
  then the counter is 0 after the call.
\<close>

theorem animation_cadence:
  "(textureAnimate canvas g el config = (g1, el1) \<longrightarrow>
      (ta_frameCount g + 1 < animate_atFrame config \<longrightarrow>
         el1 = el \<and> ta_frameCount g1 = ta_frameCount g + 1) \<and>
      (animate_atFrame config \<le> ta_frameCount g + 1 \<longrightarrow> ta_frameCount g1 = 0) \<and>
      (el1 \<noteq> el \<longrightarrow> animate_atFrame config \<le> ta_frameCount g + 1 \<and> ta_frameCount g1 = 0)) \<and>
   (animate_truthy (cfg_animate c) \<and>
    (textureOverlay canvas g textureImage (ConfigObject c) pg = Returns g2 cs \<or>
     textureOverlay canvas g textureImage (ConfigObject c) pg = Throws e g2) \<longrightarrow>
      (to_frameCount g + 1 < overlay_atFrame (cfg_animate c) \<longrightarrow>
         to_tX_anchor g2 = to_tX_anchor g \<and> to_tY g2 = to_tY g) \<and>
      (to_tX_anchor g2 \<noteq> to_tX_anchor g \<or> to_tY g2 \<noteq> to_tY g \<longrightarrow>
         overlay_atFrame (cfg_animate c) \<le> to_frameCount g + 1 \<and> to_frameCount g2 = 0)) \<and>
   (animate_truthy (cfg_animate c) \<and>
    textureOverlay canvas g textureImage (ConfigObject c) pg = Returns g2 cs \<longrightarrow>
      (to_frameCount g + 1 < overlay_atFrame (cfg_animate c) \<longrightarrow>
         to_frameCount g2 = to_frameCount g + 1) \<and>
      (overlay_atFrame (cfg_animate c) \<le> to_frameCount g + 1 \<longrightarrow>
         to_frameCount g2 = 0 \<and>
         to_tX_anchor g2 =
           - js_floor (random_fn g (drawn g) *
               overlay_amount (cfg_animate c) (target_width canvas pg) (target_height canvas pg)) \<and>
         to_tY g2 =
           - js_floor (random_fn g (drawn g + 1) *
               overlay_amount (cfg_animate c) (target_width canvas pg) (target_height canvas pg)))) \<and>
   animate_atFrame None = 2 \<and> overlay_atFrame (AnimateBool True) = 2 \<and>
   (k \<noteq> 0 \<longrightarrow>
      animate_atFrame (Some \<lparr>ac_atFrame = Some (real_of_int k), ac_amount = m\<rparr>) = real_of_int k \<and>
      overlay_atFrame (AnimateObject (Some (real_of_int k)) m) = real_of_int k)"
proof (intro conjI impI)
  assume "textureAnimate canvas g el config = (g1, el1)" "ta_frameCount g + 1 < animate_atFrame config"
  then show "el1 = el" "ta_frameCount g1 = ta_frameCount g + 1"
    by (auto simp: textureAnimate_keep)
next
  assume "textureAnimate canvas g el config = (g1, el1)" "animate_atFrame config \<le> ta_frameCount g + 1"
  then show "ta_frameCount g1 = 0"
    using textureAnimate_redraw [of config g canvas el] by simp
next
  assume a: "textureAnimate canvas g el config = (g1, el1)" "el1 \<noteq> el"
  then show le: "animate_atFrame config \<le> ta_frameCount g + 1"
    using textureAnimate_keep [of g config canvas el] by (cases "ta_frameCount g + 1 < animate_atFrame config") auto
  then show "ta_frameCount g1 = 0"
    using a textureAnimate_redraw [of config g canvas el] by simp
next
  assume a: "animate_truthy (cfg_animate c) \<and>
    (textureOverlay canvas g textureImage (ConfigObject c) pg = Returns g2 cs \<or>
     textureOverlay canvas g textureImage (ConfigObject c) pg = Throws e g2)"
    and lt: "to_frameCount g + 1 < overlay_atFrame (cfg_animate c)"
  from a textureOverlay_state [of canvas g textureImage c pg g2 cs e]
  show "to_tX_anchor g2 = to_tX_anchor g" "to_tY g2 = to_tY g"
    using lt by (auto simp: overlay_animate_keep)
next
  assume a: "animate_truthy (cfg_animate c) \<and>
    (textureOverlay canvas g textureImage (ConfigObject c) pg = Returns g2 cs \<or>
     textureOverlay canvas g textureImage (ConfigObject c) pg = Throws e g2)"
    and ne: "to_tX_anchor g2 \<noteq> to_tX_anchor g \<or> to_tY g2 \<noteq> to_tY g"
  let ?g' = "overlay_animate (animate_truthy (cfg_animate c)) (overlay_atFrame (cfg_animate c))
                (overlay_amount (cfg_animate c) (target_width canvas pg) (target_height canvas pg)) g"
  from a textureOverlay_state [of canvas g textureImage c pg g2 cs e] ne
  have g2: "g2 = ?g'" by auto
  show le: "overlay_atFrame (cfg_animate c) \<le> to_frameCount g + 1"
  proof (rule ccontr)
    assume "\<not> overlay_atFrame (cfg_animate c) \<le> to_frameCount g + 1"
    then have "to_tX_anchor ?g' = to_tX_anchor g \<and> to_tY ?g' = to_tY g"
      by (intro overlay_animate_keep) simp
    with ne g2 show False by simp
  qed
  show "to_frameCount g2 = 0"
    using a le by (simp add: g2 overlay_animate_redraw)
next
  assume a: "animate_truthy (cfg_animate c) \<and>
    textureOverlay canvas g textureImage (ConfigObject c) pg = Returns g2 cs"
    and lt: "to_frameCount g + 1 < overlay_atFrame (cfg_animate c)"
  then show "to_frameCount g2 = to_frameCount g + 1"
    using textureOverlay_Returns_state [of canvas g textureImage c pg g2 cs]
    by (simp add: overlay_animate_count)
next
  assume a: "animate_truthy (cfg_animate c) \<and>
    textureOverlay canvas g textureImage (ConfigObject c) pg = Returns g2 cs"
    and le: "overlay_atFrame (cfg_animate c) \<le> to_frameCount g + 1"
  let ?g' = "overlay_animate (animate_truthy (cfg_animate c)) (overlay_atFrame (cfg_animate c))
                (overlay_amount (cfg_animate c) (target_width canvas pg) (target_height canvas pg)) g"
  have g2: "g2 = ?g'"
    using a textureOverlay_Returns_state [of canvas g textureImage c pg g2 cs] by simp
  show "to_frameCount g2 = 0"
    and "to_tX_anchor g2 =
           - js_floor (random_fn g (drawn g) *
               overlay_amount (cfg_animate c) (target_width canvas pg) (target_height canvas pg))"
    and "to_tY g2 =
           - js_floor (random_fn g (drawn g + 1) *
               overlay_amount (cfg_animate c) (target_width canvas pg) (target_height canvas pg))"
    using a le by (simp_all add: g2 overlay_animate_redraw)
qed (simp_all add: js_round_def)

text \<open>
  C4 on a 10 by 10 canvas with the defaults (\<open>atFrame\<close> 2) and a random function that
  returns 0.5: a first call, and a call with the counter at 1.
\<close>

theorem animation_cadence_witness:
  "snd (textureAnimate \<lparr>width = 10, height = 10, pixelDensity = 1, pixels = replicate 400 255\<rparr>
          (new_P5Grain (\<lambda>n. 1 / 2))
          \<lparr>kind = HTMLElement, style_backgroundPosition = None, style_top = None, style_left = None\<rparr>
          None) =
     \<lparr>kind = HTMLElement, style_backgroundPosition = None, style_top = None, style_left = None\<rparr> \<and>
   ta_frameCount
     (fst (textureAnimate \<lparr>width = 10, height = 10, pixelDensity = 1, pixels = replicate 400 255\<rparr>
             ((new_P5Grain (\<lambda>n. 1 / 2))\<lparr>ta_frameCount := 1\<rparr>)
             \<lparr>kind = HTMLElement, style_backgroundPosition = None, style_top = None, style_left = None\<rparr>
             None)) = 0 \<and>
   (\<exists>g2 cs.
      textureOverlay \<lparr>width = 10, height = 10, pixelDensity = 1, pixels = replicate 400 255\<rparr>
        (new_P5Grain (\<lambda>n. 1 / 2)) (P5Image 10 10)
        (ConfigObject (no_properties\<lparr>cfg_animate := AnimateBool True\<rparr>)) (PgValue JUndefined) =
        Returns g2 cs \<and>
      to_tX_anchor g2 = 0 \<and> to_tY g2 = 0 \<and> to_frameCount g2 = 1) \<and>
   (\<exists>g2 cs.
      textureOverlay \<lparr>width = 10, height = 10, pixelDensity = 1, pixels = replicate 400 255\<rparr>
        ((new_P5Grain (\<lambda>n. 1 / 2))\<lparr>to_frameCount := 1\<rparr>) (P5Image 10 10)
        (ConfigObject (no_properties\<lparr>cfg_animate := AnimateBool True\<rparr>)) (PgValue JUndefined) =
        Returns g2 cs \<and>
      to_tX_anchor g2 = - 5 \<and> to_tY g2 = - 5 \<and> to_frameCount g2 = 0) \<and>
   animate_atFrame (Some \<lparr>ac_atFrame = Some 3, ac_amount = None\<rparr>) = 3"
proof -
  let ?cv = "\<lparr>width = 10, height = 10, pixelDensity = 1, pixels = replicate 400 255\<rparr>"
  let ?g = "new_P5Grain (\<lambda>n. 1 / 2)"
  let ?el = "\<lparr>kind = HTMLElement, style_backgroundPosition = None, style_top = None,
             style_left = None\<rparr>"
  let ?c = "no_properties\<lparr>cfg_animate := AnimateBool True\<rparr>"
  have v: "validateArguments_textureOverlay g (P5Image 10 10) (ConfigObject ?c) (PgValue JUndefined) = None"
    for g
    by (simp add: validateArguments_textureOverlay_def no_properties_def)
  have ex: "\<exists>cs. textureOverlay ?cv g (P5Image 10 10) (ConfigObject ?c) (PgValue JUndefined) =
              Returns (overlay_animate True 2 10 g) cs"
    if "to_tX_anchor (overlay_animate True 2 10 g) < 10" for g
    by (rule textureOverlay_returns [OF v, where c = ?c and tW = 10 and tH = 10])
       (use that in \<open>simp_all add: no_properties_def\<close>)
  have a: "to_tX_anchor (overlay_animate True 2 10 ?g) < 10"
    by (simp add: overlay_animate_def new_P5Grain_def)
  have b: "to_tX_anchor (overlay_animate True 2 10 (?g\<lparr>to_frameCount := 1\<rparr>)) < 10"
    by (simp add: overlay_animate_def new_P5Grain_def next_random_def js_floor_def)
  obtain cs1 where cs1: "textureOverlay ?cv ?g (P5Image 10 10) (ConfigObject ?c) (PgValue JUndefined) =
              Returns (overlay_animate True 2 10 ?g) cs1"
    using ex [OF a] by blast
  obtain cs2 where cs2: "textureOverlay ?cv (?g\<lparr>to_frameCount := 1\<rparr>) (P5Image 10 10)
              (ConfigObject ?c) (PgValue JUndefined) =
              Returns (overlay_animate True 2 10 (?g\<lparr>to_frameCount := 1\<rparr>)) cs2"
    using ex [OF b] by blast
  have 1: "snd (textureAnimate ?cv ?g ?el None) = ?el"
    using animation_cadence
      [where canvas = ?cv and g = ?g and el = ?el and config = None
         and ?g1.0 = "fst (textureAnimate ?cv ?g ?el None)"
         and ?el1.0 = "snd (textureAnimate ?cv ?g ?el None)"]
    by (simp add: new_P5Grain_def)
  have 2: "ta_frameCount (fst (textureAnimate ?cv (?g\<lparr>ta_frameCount := 1\<rparr>) ?el None)) = 0"
    using animation_cadence
      [where canvas = ?cv and g = "?g\<lparr>ta_frameCount := 1\<rparr>" and el = ?el and config = None
         and ?g1.0 = "fst (textureAnimate ?cv (?g\<lparr>ta_frameCount := 1\<rparr>) ?el None)"
         and ?el1.0 = "snd (textureAnimate ?cv (?g\<lparr>ta_frameCount := 1\<rparr>) ?el None)"]
    by (simp add: new_P5Grain_def)
  have 3: "to_tX_anchor (overlay_animate True 2 10 ?g) = 0 \<and>
           to_tY (overlay_animate True 2 10 ?g) = 0 \<and>
           to_frameCount (overlay_animate True 2 10 ?g) = 1"
    using cs1 animation_cadence
      [where canvas = ?cv and g = ?g and c = ?c and textureImage = "P5Image 10 10"
         and pg = "PgValue JUndefined" and ?g2.0 = "overlay_animate True 2 10 ?g" and cs = cs1]
    by (simp add: new_P5Grain_def no_properties_def)
  have 4: "to_tX_anchor (overlay_animate True 2 10 (?g\<lparr>to_frameCount := 1\<rparr>)) = - 5 \<and>
           to_tY (overlay_animate True 2 10 (?g\<lparr>to_frameCount := 1\<rparr>)) = - 5 \<and>
           to_frameCount (overlay_animate True 2 10 (?g\<lparr>to_frameCount := 1\<rparr>)) = 0"
    using cs2 animation_cadence
      [where canvas = ?cv and g = "?g\<lparr>to_frameCount := 1\<rparr>" and c = ?c
         and textureImage = "P5Image 10 10" and pg = "PgValue JUndefined"
         and ?g2.0 = "overlay_animate True 2 10 (?g\<lparr>to_frameCount := 1\<rparr>)" and cs = cs2]
    by (simp add: new_P5Grain_def no_properties_def js_floor_def)
  have 5: "animate_atFrame (Some \<lparr>ac_atFrame = Some 3, ac_amount = None\<rparr>) = 3"
    using animation_cadence [where k = 3 and m = None] by simp
  from 1 2 3 4 5 cs1 cs2 show ?thesis by blast
qed

text \<open>
  C5. Anchor sign invariant. From the state the constructor builds (both anchor
  coordinates 0), after any sequence of \<open>textureOverlay\<close> calls that have animation
  enabled and a resolved animate amount above 0, with a random function that returns
  values in [0,1), the stored \<open>tX_anchor\<close> and \<open>tY\<close> are at most 0.
\<close>

theorem anchor_sign_invariant:
  assumes "\<forall>n. 0 \<le> rnd n \<and> rnd n < 1"
    and "list_all (animated_call canvas) cls"
    and "overlay_calls canvas (new_P5Grain rnd) cls = Some g"
  shows "to_tX_anchor g \<le> 0 \<and> to_tY g \<le> 0"
  by (rule overlay_calls_anchor_sign [OF _ _ _ assms(2,3)])
     (use assms(1) in \<open>simp_all add: new_P5Grain_def\<close>)


text \<open>
  C5 at three animated calls on a 10 by 10 canvas with a random function that returns
  0.5: the second call redraws the anchor to (-5,-5).
\<close>

theorem anchor_sign_invariant_witness:
  "\<exists>g. overlay_calls \<lparr>width = 10, height = 10, pixelDensity = 1, pixels = replicate 400 255\<rparr>
      (new_P5Grain (\<lambda>n. 1 / 2))
      [(P5Image 10 10, ConfigObject (no_properties\<lparr>cfg_animate := AnimateBool True\<rparr>),
        PgValue JUndefined),
       (P5Image 10 10, ConfigObject (no_properties\<lparr>cfg_animate := AnimateBool True\<rparr>),
        PgValue JUndefined),
       (P5Image 10 10, ConfigObject (no_properties\<lparr>cfg_animate := AnimateBool True\<rparr>),
        PgValue JUndefined)] = Some g \<and>
    to_tX_anchor g = - 5 \<and> to_tY g = - 5 \<and> to_tX_anchor g \<le> 0 \<and> to_tY g \<le> 0"
proof -
  let ?cv = "\<lparr>width = 10, height = 10, pixelDensity = 1, pixels = replicate 400 255\<rparr>"
  let ?cl = "(P5Image 10 10, ConfigObject (no_properties\<lparr>cfg_animate := AnimateBool True\<rparr>),
              PgValue JUndefined)"
  let ?g = "(new_P5Grain (\<lambda>n. 1 / 2))\<lparr>drawn := 2, to_frameCount := 1, to_tX_anchor := - 5,
                                          to_tY := - 5\<rparr>"
  have r: "\<forall>n::nat. (0::real) \<le> 1 / 2 \<and> (1::real) / 2 < 1" by simp
  have l: "list_all (animated_call ?cv) [?cl, ?cl, ?cl]"
    by (simp add: no_properties_def)
  have "to_tX_anchor ?g \<le> 0 \<and> to_tY ?g \<le> 0"
    by (rule anchor_sign_invariant [OF r l example_calls])
  then show ?thesis
    using example_calls by (intro exI [of _ ?g]) (simp add: new_P5Grain_def)
qed

text \<open>
  C7. Grain delta law. The law holds of every pixel the pass visits, and so of every
  pixel of the main canvas, but not of every pixel of an offscreen buffer: the loop
  bound takes \<open>width\<close> and \<open>height\<close> from the main canvas also when \<open>pg\<close> is given. With
  a main canvas of 1 by 1, a buffer \<open>pg\<close> of 2 by 1, both of density 1, the amount 2 and
  a random function that returns 0.9 (every draw gives the delta 2), \<open>granulateSimple\<close>
  makes one draw and \<open>granulateChannels\<close> three: the first pixel of \<open>pg\<close> gets its
  deltas, and no delta is drawn for or added to the R, G and B samples 40, 50, 60 of the
  second pixel.
\<close>

theorem grain_delta_law_offscreen:
  "randomIntInclusive (9 / 10) (- js_round 2) (js_round 2) = 2 \<and>
   granulateSimple (\<lambda>x. x)
     \<lparr>width = 1, height = 1, pixelDensity = 1, pixels = [0, 0, 0, 200]\<rparr>
     (new_P5Grain (\<lambda>n. 9 / 10)) 2 None
     (Some \<lparr>width = 2, height = 1, pixelDensity = 1,
            pixels = [10, 20, 30, 200, 40, 50, 60, 200]\<rparr>) =
     ((new_P5Grain (\<lambda>n. 9 / 10))\<lparr>drawn := 1\<rparr>,
      \<lparr>width = 1, height = 1, pixelDensity = 1, pixels = [0, 0, 0, 200]\<rparr>,
      Some \<lparr>width = 2, height = 1, pixelDensity = 1,
            pixels = [12, 22, 32, 200, 40, 50, 60, 200]\<rparr>) \<and>
   granulateChannels (\<lambda>x. x)
     \<lparr>width = 1, height = 1, pixelDensity = 1, pixels = [0, 0, 0, 200]\<rparr>
     (new_P5Grain (\<lambda>n. 9 / 10)) 2 None
     (Some \<lparr>width = 2, height = 1, pixelDensity = 1,
            pixels = [10, 20, 30, 200, 40, 50, 60, 200]\<rparr>) =
     ((new_P5Grain (\<lambda>n. 9 / 10))\<lparr>drawn := 3\<rparr>,
      \<lparr>width = 1, height = 1, pixelDensity = 1, pixels = [0, 0, 0, 200]\<rparr>,
      Some \<lparr>width = 2, height = 1, pixelDensity = 1,
            pixels = [12, 22, 32, 200, 40, 50, 60, 200]\<rparr>)"
proof -
  have d: "randomIntInclusive (9 / 10) (- js_round 2) (js_round 2) = 2"
    by (simp add: randomIntInclusive_def js_round_def js_floor_def js_ceil_def)
  show ?thesis
    by (simp add: total_samples_def target_pixels_def granulateSimple_def granulateChannels_def
        granulateSimple_loop.simps granulateChannels_loop.simps next_random_def
        new_P5Grain_def add_at_def d Let_def)
qed

text \<open>
  C8. Alpha frame condition. With \<open>alpha\<close> false or omitted no alpha sample changes
  (\<open>granulate_visited_alpha\<close>). With \<open>alpha\<close> true the alpha sample of every pixel the
  pass visits gets a delta, but on an offscreen buffer the pass does not visit every
  pixel: with a main canvas of 1 by 1, a buffer \<open>pg\<close> of 2 by 1, both of density 1, the
  amount 2, \<open>alpha\<close> true and a random function that returns 0.9, the alpha sample of the
  first pixel of \<open>pg\<close> (index 3) becomes 202 and the alpha sample of the second (index 7)
  stays 200, in \<open>granulateSimple\<close> and in \<open>granulateChannels\<close>.
\<close>

theorem alpha_frame_offscreen:
  "target_pixels
     (fst (snd (granulateSimple (\<lambda>x. x)
        \<lparr>width = 1, height = 1, pixelDensity = 1, pixels = [0, 0, 0, 200]\<rparr>
        (new_P5Grain (\<lambda>n. 9 / 10)) 2 (Some True)
        (Some \<lparr>width = 2, height = 1, pixelDensity = 1,
            pixels = [10, 20, 30, 200, 40, 50, 60, 200]\<rparr>))))
     (snd (snd (granulateSimple (\<lambda>x. x)
        \<lparr>width = 1, height = 1, pixelDensity = 1, pixels = [0, 0, 0, 200]\<rparr>
        (new_P5Grain (\<lambda>n. 9 / 10)) 2 (Some True)
        (Some \<lparr>width = 2, height = 1, pixelDensity = 1,
            pixels = [10, 20, 30, 200, 40, 50, 60, 200]\<rparr>)))) ! 3 = 202 \<and>
   target_pixels
     (fst (snd (granulateSimple (\<lambda>x. x)
        \<lparr>width = 1, height = 1, pixelDensity = 1, pixels = [0, 0, 0, 200]\<rparr>
        (new_P5Grain (\<lambda>n. 9 / 10)) 2 (Some True)
        (Some \<lparr>width = 2, height = 1, pixelDensity = 1,
            pixels = [10, 20, 30, 200, 40, 50, 60, 200]\<rparr>))))
     (snd (snd (granulateSimple (\<lambda>x. x)
        \<lparr>width = 1, height = 1, pixelDensity = 1, pixels = [0, 0, 0, 200]\<rparr>
        (new_P5Grain (\<lambda>n. 9 / 10)) 2 (Some True)
        (Some \<lparr>width = 2, height = 1, pixelDensity = 1,
            pixels = [10, 20, 30, 200, 40, 50, 60, 200]\<rparr>)))) ! 7 = 200 \<and>
   target_pixels
     (fst (snd (granulateChannels (\<lambda>x. x)
        \<lparr>width = 1, height = 1, pixelDensity = 1, pixels = [0, 0, 0, 200]\<rparr>
        (new_P5Grain (\<lambda>n. 9 / 10)) 2 (Some True)
        (Some \<lparr>width = 2, height = 1, pixelDensity = 1,
            pixels = [10, 20, 30, 200, 40, 50, 60, 200]\<rparr>))))
     (snd (snd (granulateChannels (\<lambda>x. x)
        \<lparr>width = 1, height = 1, pixelDensity = 1, pixels = [0, 0, 0, 200]\<rparr>
        (new_P5Grain (\<lambda>n. 9 / 10)) 2 (Some True)
        (Some \<lparr>width = 2, height = 1, pixelDensity = 1,
            pixels = [10, 20, 30, 200, 40, 50, 60, 200]\<rparr>)))) ! 3 = 202 \<and>
   target_pixels
     (fst (snd (granulateChannels (\<lambda>x. x)
        \<lparr>width = 1, height = 1, pixelDensity = 1, pixels = [0, 0, 0, 200]\<rparr>
        (new_P5Grain (\<lambda>n. 9 / 10)) 2 (Some True)
        (Some \<lparr>width = 2, height = 1, pixelDensity = 1,
            pixels = [10, 20, 30, 200, 40, 50, 60, 200]\<rparr>))))
     (snd (snd (granulateChannels (\<lambda>x. x)
        \<lparr>width = 1, height = 1, pixelDensity = 1, pixels = [0, 0, 0, 200]\<rparr>
        (new_P5Grain (\<lambda>n. 9 / 10)) 2 (Some True)
        (Some \<lparr>width = 2, height = 1, pixelDensity = 1,
            pixels = [10, 20, 30, 200, 40, 50, 60, 200]\<rparr>)))) ! 7 = 200"
proof -
  have d: "randomIntInclusive (9 / 10) (- js_round 2) (js_round 2) = 2"
    by (simp add: randomIntInclusive_def js_round_def js_floor_def js_ceil_def)
  show ?thesis
    by (simp add: total_samples_def target_pixels_def granulateSimple_def granulateChannels_def
        granulateSimple_loop.simps granulateChannels_loop.simps next_random_def
        new_P5Grain_def add_at_def d Let_def)
qed

text \<open>
  C9. Negative amount symmetry. As stated the claim does not hold: for the amount -1 and
  the random value 0.1 the delta is 0, where the amount 1 gives -1; and no random value
  in [0,1) makes the amount -1 draw the delta -1.
\<close>

theorem negative_amount_counterexample:
  "randomIntInclusive (1 / 10) (- js_round (- 1)) (js_round (- 1)) = 0 \<and>
   randomIntInclusive (1 / 10) (- js_round 1) (js_round 1) = - 1 \<and>
   \<not> (\<exists>r. 0 \<le> r \<and> r < 1 \<and> randomIntInclusive r (- js_round (- 1)) (js_round (- 1)) = - 1)"
proof (intro conjI)
  show "randomIntInclusive (1 / 10) (- js_round (- 1)) (js_round (- 1)) = 0"
    by (simp add: randomIntInclusive_def js_round_def js_floor_def js_ceil_def round_def)
  show "randomIntInclusive (1 / 10) (- js_round 1) (js_round 1) = - 1"
    by (simp add: randomIntInclusive_def js_round_def js_floor_def js_ceil_def)
  show "\<not> (\<exists>r. 0 \<le> r \<and> r < 1 \<and>
          randomIntInclusive r (- js_round (- 1)) (js_round (- 1)) = - 1)"
    using negative_one_draw by blast
qed

text \<open>
  C9, as the code has it. With \<open>A\<close> the rounded amount and a random value \<open>r\<close> in
  [0,1): for \<open>A \<ge> 0\<close> the delta lies between \<open>-A\<close> and \<open>A\<close>; for \<open>A = -a\<close> with
  \<open>a \<ge> 1\<close> the call is \<open>randomIntInclusive(a, -a)\<close> and the delta is
  \<open>floor(a - r (2 a - 1))\<close>, which lies between \<open>1 - a\<close> and \<open>a\<close>, is \<open>a\<close> only for
  \<open>r = 0\<close> and is never \<open>-a\<close>. A negative amount is not treated as its magnitude.
\<close>

theorem negative_amount_draw:
  "(0 \<le> round amount \<and> 0 \<le> r \<and> r < 1 \<longrightarrow>
      - real_of_int (round amount) \<le>
        randomIntInclusive r (- js_round amount) (js_round amount) \<and>
      randomIntInclusive r (- js_round amount) (js_round amount) \<le> real_of_int (round amount)) \<and>
   (round amount = - a \<and> 1 \<le> a \<and> 0 \<le> r \<and> r < 1 \<longrightarrow>
      randomIntInclusive r (- js_round amount) (js_round amount) =
        real_of_int \<lfloor>real_of_int a - r * (2 * real_of_int a - 1)\<rfloor> \<and>
      1 - real_of_int a \<le> randomIntInclusive r (- js_round amount) (js_round amount) \<and>
      randomIntInclusive r (- js_round amount) (js_round amount) \<le> real_of_int a \<and>
      (randomIntInclusive r (- js_round amount) (js_round amount) = real_of_int a
         \<longleftrightarrow> r = 0) \<and>
      randomIntInclusive r (- js_round amount) (js_round amount) \<noteq> - real_of_int a)"
proof (intro conjI impI)
  assume "0 \<le> round amount \<and> 0 \<le> r \<and> r < 1"
  then have "- real_of_int (round amount) \<le>
        randomIntInclusive r (- real_of_int (round amount)) (real_of_int (round amount)) \<and>
      randomIntInclusive r (- real_of_int (round amount)) (real_of_int (round amount)) \<le>
        real_of_int (round amount)"
    by (intro randomIntInclusive_range) simp_all
  then show "- real_of_int (round amount) \<le>
        randomIntInclusive r (- js_round amount) (js_round amount)"
    and "randomIntInclusive r (- js_round amount) (js_round amount) \<le> real_of_int (round amount)"
    by (simp_all only: js_round_def)
next
  assume a: "round amount = - a \<and> 1 \<le> a \<and> 0 \<le> r \<and> r < 1"
  have A: "js_round amount = - real_of_int a"
    using a by (simp add: js_round_def)
  have R: "1 - real_of_int a \<le> randomIntInclusive r (real_of_int a) (- real_of_int a) \<and>
         randomIntInclusive r (real_of_int a) (- real_of_int a) \<le> real_of_int a \<and>
         (randomIntInclusive r (real_of_int a) (- real_of_int a) = real_of_int a \<longleftrightarrow> r = 0)"
    using a by (intro randomIntInclusive_negative_range) simp_all
  have N: "randomIntInclusive r (real_of_int a) (- real_of_int a) \<noteq> - real_of_int a"
    using R by linarith
  show "randomIntInclusive r (- js_round amount) (js_round amount) =
        real_of_int \<lfloor>real_of_int a - r * (2 * real_of_int a - 1)\<rfloor>"
    unfolding A minus_minus by (rule randomIntInclusive_negative)
  show "1 - real_of_int a \<le> randomIntInclusive r (- js_round amount) (js_round amount)"
    and "randomIntInclusive r (- js_round amount) (js_round amount) \<le> real_of_int a"
    and "randomIntInclusive r (- js_round amount) (js_round amount) = real_of_int a
         \<longleftrightarrow> r = 0"
    and "randomIntInclusive r (- js_round amount) (js_round amount) \<noteq> - real_of_int a"
    unfolding A minus_minus using R N by blast+
qed

text \<open>C9 at the amounts 2 and -2 and the random value 0.5.\<close>

theorem negative_amount_draw_witness:
  "- 2 \<le> randomIntInclusive (1 / 2) (- js_round 2) (js_round 2) \<and>
   randomIntInclusive (1 / 2) (- js_round 2) (js_round 2) \<le> 2 \<and>
   randomIntInclusive (1 / 2) (- js_round (- 2)) (js_round (- 2)) = 0 \<and>
   - 1 \<le> randomIntInclusive (1 / 2) (- js_round (- 2)) (js_round (- 2)) \<and>
   randomIntInclusive (1 / 2) (- js_round (- 2)) (js_round (- 2)) \<noteq> - 2"
proof -
  have p: "0 \<le> round (2 :: real) \<and> (0::real) \<le> 1 / 2 \<and> (1::real) / 2 < 1"
    by simp
  have n: "round (- 2 :: real) = - 2 \<and> (1::int) \<le> 2 \<and> (0::real) \<le> 1 / 2 \<and> (1::real) / 2 < 1"
    by (simp add: round_def)
  from negative_amount_draw [where amount = 2 and r = "1 / 2", THEN conjunct1, rule_format, OF p]
    negative_amount_draw [where amount = "- 2" and a = 2 and r = "1 / 2", THEN conjunct2,
      rule_format, OF n]
  show ?thesis by simp
qed


text \<open>
  C6. Whole-buffer pass. The claim holds of the main canvas, not of an offscreen
  buffer: the loop bound of \<open>granulateSimple\<close>, \<open>granulateChannels\<close> and
  \<open>tinkerPixels\<close> takes \<open>width\<close> and \<open>height\<close> from the main canvas also when \<open>pg\<close> is
  given. With a main canvas of 1 by 1 and a buffer \<open>pg\<close> of 2 by 1 (8 samples), both of
  density 1, the bound is 4: the pass visits the index 0 only, and the second pixel of
  \<open>pg\<close> is left as it was.
\<close>

theorem whole_buffer_pass_offscreen:
  "total_samples \<lparr>width = 1, height = 1, pixelDensity = 1, pixels = [0, 0, 0, 200]\<rparr>
     (Some \<lparr>width = 2, height = 1, pixelDensity = 1,
            pixels = [10, 20, 30, 200, 40, 50, 60, 200]\<rparr>) = 4 \<and>
   visited 4 0 = [0] \<and>
   granulateSimple (\<lambda>x. x)
     \<lparr>width = 1, height = 1, pixelDensity = 1, pixels = [0, 0, 0, 200]\<rparr>
     (new_P5Grain (\<lambda>n. 9 / 10)) 2 (Some True)
     (Some \<lparr>width = 2, height = 1, pixelDensity = 1,
            pixels = [10, 20, 30, 200, 40, 50, 60, 200]\<rparr>) =
     ((new_P5Grain (\<lambda>n. 9 / 10))\<lparr>drawn := 1\<rparr>,
      \<lparr>width = 1, height = 1, pixelDensity = 1, pixels = [0, 0, 0, 200]\<rparr>,
      Some \<lparr>width = 2, height = 1, pixelDensity = 1,
            pixels = [12, 22, 32, 202, 40, 50, 60, 200]\<rparr>) \<and>
   granulateChannels (\<lambda>x. x)
     \<lparr>width = 1, height = 1, pixelDensity = 1, pixels = [0, 0, 0, 200]\<rparr>
     (new_P5Grain (\<lambda>n. 9 / 10)) 2 (Some True)
     (Some \<lparr>width = 2, height = 1, pixelDensity = 1,
            pixels = [10, 20, 30, 200, 40, 50, 60, 200]\<rparr>) =
     ((new_P5Grain (\<lambda>n. 9 / 10))\<lparr>drawn := 4\<rparr>,
      \<lparr>width = 1, height = 1, pixelDensity = 1, pixels = [0, 0, 0, 200]\<rparr>,
      Some \<lparr>width = 2, height = 1, pixelDensity = 1,
            pixels = [12, 22, 32, 202, 40, 50, 60, 200]\<rparr>) \<and>
   tinkerPixels \<lparr>width = 1, height = 1, pixelDensity = 1, pixels = [0, 0, 0, 200]\<rparr>
     (\<lambda>i t w. w @ [(i, t)])
     (Some \<lparr>width = 2, height = 1, pixelDensity = 1,
            pixels = [10, 20, 30, 200, 40, 50, 60, 200]\<rparr>) [] = [(0, 4)]"
proof -
  have d: "randomIntInclusive (9 / 10) (- js_round 2) (js_round 2) = 2"
    by (simp add: randomIntInclusive_def js_round_def js_floor_def js_ceil_def)
  show ?thesis
    by (simp add: total_samples_def target_pixels_def granulateSimple_def granulateChannels_def
        tinkerPixels_def granulateSimple_loop.simps granulateChannels_loop.simps
        tinkerPixels_loop.simps visited.simps next_random_def new_P5Grain_def add_at_def d
        Let_def)
qed

end
